theory Spec2Isabelle
  imports Complex_Main "HOL-Library.Word"
begin

section \<open>Python values: bytes, text, exceptions\<close>

text \<open>
  The reader of \<^verbatim>\<open>scilpy/io/varian_fdf.py\<close> works on two kinds of strings.
  A file opened with mode \<^verbatim>\<open>'rb'\<close> yields \<^verbatim>\<open>bytes\<close>: these are lists of
  \<^typ>\<open>char\<close> (eight bits each).  \<^verbatim>\<open>line.decode()\<close> yields a \<^verbatim>\<open>str\<close>: a list
  of Unicode code points, here natural numbers.  Every exception the source can raise
  is a value of \<open>error\<close>, and a function that can raise returns \<open>error + 'a\<close>.
\<close>

type_synonym bytes = "char list"
type_synonym ustr = "nat list"

datatype error =
    IndexError | KeyError | ValueError | TypeError | UnicodeDecodeError
  | OSError | StructError | StopIteration | OverflowError

definition bindE :: "error + 'a \<Rightarrow> ('a \<Rightarrow> error + 'b) \<Rightarrow> error + 'b" where
  "bindE m f = (case m of Inl e \<Rightarrow> Inl e | Inr x \<Rightarrow> f x)"

definition u :: "string \<Rightarrow> ustr" where
  \<comment> \<open>a literal of the source, as a \<^verbatim>\<open>str\<close>\<close>
  "u s = map of_char s"

subsection \<open>\<^verbatim>\<open>bytes.decode()\<close>: strict UTF-8\<close>

definition cont :: "nat \<Rightarrow> bool" where
  "cont b = (128 \<le> b \<and> b \<le> 191)"

fun utf8 :: "nat list \<Rightarrow> ustr option" where
  "utf8 [] = Some []"
| "utf8 (b # bs) =
     (if b < 128 then map_option (Cons b) (utf8 bs)
      else if 194 \<le> b \<and> b \<le> 223 then
        (case bs of
           c1 # r \<Rightarrow>
             if cont c1 then map_option (Cons ((b - 192) * 64 + (c1 - 128))) (utf8 r)
             else None
         | _ \<Rightarrow> None)
      else if 224 \<le> b \<and> b \<le> 239 then
        (case bs of
           c1 # c2 # r \<Rightarrow>
             if (if b = 224 then 160 else 128) \<le> c1 \<and> c1 \<le> (if b = 237 then 159 else 191)
                \<and> cont c2
             then map_option (Cons ((b - 224) * 4096 + (c1 - 128) * 64 + (c2 - 128))) (utf8 r)
             else None
         | _ \<Rightarrow> None)
      else if 240 \<le> b \<and> b \<le> 244 then
        (case bs of
           c1 # c2 # c3 # r \<Rightarrow>
             if (if b = 240 then 144 else 128) \<le> c1 \<and> c1 \<le> (if b = 244 then 143 else 191)
                \<and> cont c2 \<and> cont c3
             then map_option
                    (Cons ((b - 240) * 262144 + (c1 - 128) * 4096 + (c2 - 128) * 64 + (c3 - 128)))
                    (utf8 r)
             else None
         | _ \<Rightarrow> None)
      else None)"

definition decode :: "bytes \<Rightarrow> error + ustr" where
  "decode bs = (case utf8 (map of_char bs) of None \<Rightarrow> Inl UnicodeDecodeError | Some s \<Rightarrow> Inr s)"

subsection \<open>\<^verbatim>\<open>str\<close> methods\<close>

fun find_from :: "ustr \<Rightarrow> ustr \<Rightarrow> nat \<Rightarrow> int" where
  "find_from sub [] i = (if sub = [] then int i else - 1)"
| "find_from sub (x # xs) i =
     (if take (length sub) (x # xs) = sub then int i else find_from sub xs (Suc i))"

definition str_find :: "ustr \<Rightarrow> ustr \<Rightarrow> int" where
  \<comment> \<open>\<^verbatim>\<open>s.find(sub)\<close>: the lowest index of \<open>sub\<close> in \<open>s\<close>, or \<open>-1\<close>\<close>
  "str_find s sub = find_from sub s 0"

definition startswith :: "ustr \<Rightarrow> ustr \<Rightarrow> bool" where
  "startswith s p = (take (length p) s = p)"

definition isspace :: "nat \<Rightarrow> bool" where
  \<comment> \<open>the code points \<^verbatim>\<open>str.isspace\<close> accepts, which \<^verbatim>\<open>rstrip()\<close> and \<^verbatim>\<open>split()\<close> remove\<close>
  "isspace c = ((9 \<le> c \<and> c \<le> 13) \<or> (28 \<le> c \<and> c \<le> 32) \<or> c = 133 \<or> c = 160
     \<or> c = 5760 \<or> (8192 \<le> c \<and> c \<le> 8202) \<or> c = 8232 \<or> c = 8233 \<or> c = 8239
     \<or> c = 8287 \<or> c = 12288)"

definition rstrip :: "ustr \<Rightarrow> ustr" where
  "rstrip s = rev (dropWhile isspace (rev s))"

definition strip_chr :: "nat \<Rightarrow> ustr \<Rightarrow> ustr" where
  \<comment> \<open>\<^verbatim>\<open>s.strip(c)\<close> for a one-character argument\<close>
  "strip_chr c s = rev (dropWhile (\<lambda>x. x = c) (rev (dropWhile (\<lambda>x. x = c) s)))"

fun split_ws :: "ustr \<Rightarrow> ustr \<Rightarrow> ustr list" where
  \<comment> \<open>\<^verbatim>\<open>s.split()\<close>; the first argument is the word being read\<close>
  "split_ws w [] = (if w = [] then [] else [w])"
| "split_ws w (c # cs) =
     (if isspace c then (if w = [] then split_ws [] cs else w # split_ws [] cs)
      else split_ws (w @ [c]) cs)"

definition split :: "ustr \<Rightarrow> ustr list" where
  "split s = split_ws [] s"

function digits_of :: "nat \<Rightarrow> ustr" where
  "digits_of n = (if n < 10 then [48 + n] else digits_of (n div 10) @ [48 + n mod 10])"
  by pat_completeness auto
termination
  by (relation "measure id") auto

declare digits_of.simps [simp del]

definition str_of_int :: "int \<Rightarrow> ustr" where
  \<comment> \<open>\<^verbatim>\<open>"{}".format(n)\<close> for an integer\<close>
  "str_of_int n = (if n < 0 then 45 # digits_of (nat (- n)) else digits_of (nat n))"

subsection \<open>The regular expressions of the reader\<close>

text \<open>
  Every pattern of the source is a sequence of one-character classes, each taken once,
  optionally, or repeated greedily, with at most one group.  \<open>rmatch\<close> is the
  backtracking matcher of \<^verbatim>\<open>re\<close> on such a sequence, anchored at the start of its
  argument: a repetition first takes as many characters as it can and gives them back one
  by one.  It returns how many characters each item took.
\<close>

datatype quant = Once | Opt | Star | Plus

type_synonym atom = "(nat \<Rightarrow> bool) \<times> quant"

fun rmatch :: "atom list \<Rightarrow> ustr \<Rightarrow> nat list option" where
  "rmatch [] s = Some []"
| "rmatch ((c, Once) # r) s =
     (case s of
        [] \<Rightarrow> None
      | x # xs \<Rightarrow> if c x then map_option (Cons 1) (rmatch r xs) else None)"
| "rmatch ((c, Opt) # r) s =
     (case s of
        [] \<Rightarrow> map_option (Cons 0) (rmatch r s)
      | x # xs \<Rightarrow>
          if c x then
            (case rmatch r xs of
               Some ps \<Rightarrow> Some (1 # ps)
             | None \<Rightarrow> map_option (Cons 0) (rmatch r s))
          else map_option (Cons 0) (rmatch r s))"
| "rmatch ((c, Star) # r) s =
     (case s of
        [] \<Rightarrow> map_option (Cons 0) (rmatch r s)
      | x # xs \<Rightarrow>
          if c x then
            (case rmatch ((c, Star) # r) xs of
               Some (p # ps) \<Rightarrow> Some (Suc p # ps)
             | _ \<Rightarrow> map_option (Cons 0) (rmatch r s))
          else map_option (Cons 0) (rmatch r s))"
| "rmatch ((c, Plus) # r) s =
     (case s of
        [] \<Rightarrow> None
      | x # xs \<Rightarrow>
          if c x then
            (case rmatch ((c, Star) # r) xs of
               Some (p # ps) \<Rightarrow> Some (Suc p # ps)
             | _ \<Rightarrow> None)
          else None)"

record regex =
  atoms :: "atom list"
  grp :: "(nat \<times> nat) option"

definition captured :: "regex \<Rightarrow> nat list \<Rightarrow> ustr \<Rightarrow> ustr" where
  \<comment> \<open>what \<^verbatim>\<open>findall\<close> lists for one match: the group if there is one, else the match\<close>
  "captured re ps s =
     (case grp re of
        None \<Rightarrow> take (sum_list ps) s
      | Some (i, j) \<Rightarrow> take (sum_list (take (j - i) (drop i ps))) (drop (sum_list (take i ps)) s))"

function findall :: "regex \<Rightarrow> ustr \<Rightarrow> ustr list" where
  "findall re s =
     (if s = [] then []
      else (case rmatch (atoms re) s of
              None \<Rightarrow> findall re (tl s)
            | Some ps \<Rightarrow> captured re ps s # findall re (drop (max 1 (sum_list ps)) s)))"
  by pat_completeness auto
termination
  by (relation "measure (\<lambda>(re, s). length s)") auto

declare findall.simps [simp del]

definition chr_is :: "char \<Rightarrow> nat \<Rightarrow> bool" where
  "chr_is c x = (x = of_char c)"

definition in_range :: "char \<Rightarrow> char \<Rightarrow> nat \<Rightarrow> bool" where
  "in_range a b x = (of_char a \<le> x \<and> x \<le> of_char b)"

definition float_regex :: regex where
  \<comment> \<open>\<^verbatim>\<open>'[-+]?[0-9]*\.?[0-9]+'\<close>\<close>
  "float_regex = \<lparr>atoms =
      [(\<lambda>x. chr_is CHR ''-'' x \<or> chr_is CHR ''+'' x, Opt),
       (in_range CHR ''0'' CHR ''9'', Star),
       (chr_is CHR ''.'', Opt),
       (in_range CHR ''0'' CHR ''9'', Plus)],
     grp = None\<rparr>"

definition named_value_regex :: regex where
  \<comment> \<open>\<^verbatim>\<open>'= *\"*(.*[^\"])\"* *;'\<close>; the dot is any character but a newline\<close>
  "named_value_regex = \<lparr>atoms =
      [(chr_is CHR ''='', Once),
       (chr_is CHR '' '', Star),
       (chr_is CHR 0x22, Star),
       (\<lambda>x. x \<noteq> 10, Star),
       (\<lambda>x. \<not> chr_is CHR 0x22 x, Once),
       (chr_is CHR 0x22, Star),
       (chr_is CHR '' '', Star),
       (chr_is CHR '';'', Once)],
     grp = Some (3, 5)\<rparr>"

definition unit_regex :: regex where
  \<comment> \<open>\<^verbatim>\<open>'\"[a-z]{2}\"'\<close>\<close>
  "unit_regex = \<lparr>atoms =
      [(chr_is CHR 0x22, Once),
       (in_range CHR ''a'' CHR ''z'', Once),
       (in_range CHR ''a'' CHR ''z'', Once),
       (chr_is CHR 0x22, Once)],
     grp = None\<rparr>"


section \<open>Floating point and the Unicode digit table\<close>

text \<open>
  Binary64 arithmetic and the interpreter's table of Unicode decimal digits are
  parameters of the model: \<open>'f\<close> is the type of Python floats (and of numpy's
  \<^verbatim>\<open>float64\<close>), and an \<open>env\<close> gives the operations the reader uses.  Every theorem
  below that is stated for an arbitrary \<open>env\<close> holds for the arithmetic of CPython
  and numpy in particular.

  \<^item> \<open>float_of_str\<close>: \<^verbatim>\<open>float(s)\<close>; \<open>None\<close> is \<^verbatim>\<open>ValueError\<close>.
  \<^item> \<open>float_of_int\<close>: the conversion of an integer operand.
  \<^item> \<open>fmul\<close>, \<open>fdiv\<close>, \<open>fneg\<close>: product, numpy's true division (which warns and
    returns an infinity or a NaN on a zero divisor, it does not raise), negation.
  \<^item> \<open>int_of_float\<close>: \<^verbatim>\<open>int(x)\<close>, which raises on an infinity or a NaN.
  \<^item> \<open>truediv_int\<close>: \<^verbatim>\<open>a / b\<close> for two integers, \<open>b\<close> not zero.
  \<^item> \<open>float_round\<close>: \<^verbatim>\<open>round(x)\<close>, to the nearest integer and to the even one
    of two that are equally near.
  \<^item> \<open>digit_value\<close>: the decimal value of a code point that \<^verbatim>\<open>\d\<close> matches and
    \<^verbatim>\<open>int\<close> accepts.
\<close>

record 'f env =
  float_of_str :: "ustr \<Rightarrow> 'f option"
  float_of_int :: "int \<Rightarrow> 'f"
  fmul :: "'f \<Rightarrow> 'f \<Rightarrow> 'f"
  fdiv :: "'f \<Rightarrow> 'f \<Rightarrow> 'f"
  fneg :: "'f \<Rightarrow> 'f"
  int_of_float :: "'f \<Rightarrow> error + int"
  truediv_int :: "int \<Rightarrow> int \<Rightarrow> 'f"
  float_round :: "'f \<Rightarrow> error + int"
  digit_value :: "nat \<Rightarrow> nat option"

definition py_float :: "'f env \<Rightarrow> ustr \<Rightarrow> error + 'f" where
  "py_float ops s = (case float_of_str ops s of None \<Rightarrow> Inl ValueError | Some x \<Rightarrow> Inr x)"

fun int_digits :: "'f env \<Rightarrow> ustr \<Rightarrow> nat \<Rightarrow> error + int" where
  "int_digits ops [] acc = Inr (int acc)"
| "int_digits ops (c # cs) acc =
     (case digit_value ops c of
        None \<Rightarrow> Inl ValueError
      | Some d \<Rightarrow> int_digits ops cs (10 * acc + d))"

definition py_int :: "'f env \<Rightarrow> ustr \<Rightarrow> error + int" where
  \<comment> \<open>\<^verbatim>\<open>int(s)\<close> for a string of digits\<close>
  "py_int ops s = (if s = [] then Inl ValueError else int_digits ops s 0)"

definition digit_regex :: "'f env \<Rightarrow> regex" where
  \<comment> \<open>\<^verbatim>\<open>'(\d+)'\<close>\<close>
  "digit_regex ops = \<lparr>atoms = [(\<lambda>x. digit_value ops x \<noteq> None, Plus)], grp = Some (0, 1)\<rparr>"

fun mapE :: "('a \<Rightarrow> error + 'b) \<Rightarrow> 'a list \<Rightarrow> error + 'b list" where
  "mapE f [] = Inr []"
| "mapE f (x # xs) =
     (case f x of
        Inl e \<Rightarrow> Inl e
      | Inr y \<Rightarrow> (case mapE f xs of Inl e \<Rightarrow> Inl e | Inr ys \<Rightarrow> Inr (y # ys)))"

section \<open>The header dictionary\<close>

text \<open>
  \<^verbatim>\<open>raw_header\<close> is a \<^verbatim>\<open>dict\<close> from the key strings of the source to values of
  several Python types.  \<open>Ints\<close> stands for a list, tuple or array of integers,
  \<open>Floats\<close> for a list or array of floats, and \<open>Nums\<close> for the list
  \<^verbatim>\<open>voxel_dim\<close>, whose entries are floats and, after \<^verbatim>\<open>append(1)\<close>, integers.
\<close>

datatype 'f number = Flt 'f | IntNum int

datatype 'f pyval =
    Str ustr | IntV int | Ints "int list" | Floats "'f list" | Nums "'f number list"

type_synonym 'f header = "string \<Rightarrow> 'f pyval option"

definition find_values :: "(ustr \<times> string) list" where
  "find_values =
     [(u ''echos'', ''nechoes''),
      (u ''echo_no'', ''echo_no''),
      (u ''nslices'', ''nslices''),
      (u ''slice_no'', ''sl''),
      (u ''bigendian'', ''endian''),
      (u ''array_dim'', ''array_dim''),
      (u ''bigendian'', ''endian''),
      (u ''studyid'', ''studyid'')]"

fun scan_tags :: "(ustr \<times> string) list \<Rightarrow> ustr \<Rightarrow> 'f header \<Rightarrow> error + 'f header" where
  \<comment> \<open>lines 128-132: the first tag found after column 0 takes the value, then \<^verbatim>\<open>break\<close>\<close>
  "scan_tags [] line h = Inr h"
| "scan_tags ((file_key, head_key) # rest) line h =
     (if str_find line file_key > 0 then
        (case findall named_value_regex line of
           [] \<Rightarrow> Inl IndexError
         | v # _ \<Rightarrow> Inr (h(head_key \<mapsto> Str v)))
      else scan_tags rest line h)"

definition normalize_endian :: "'f header \<Rightarrow> error + 'f header" where
  \<comment> \<open>lines 134-136: only a value of type \<^verbatim>\<open>int\<close> is rewritten\<close>
  "normalize_endian h =
     (case h ''endian'' of
        None \<Rightarrow> Inl KeyError
      | Some (IntV n) \<Rightarrow> Inr (h(''endian'' \<mapsto> Str (if n \<noteq> 0 then u ''>'' else u ''<'')))
      | Some _ \<Rightarrow> Inr h)"

definition normalize_unit :: "ustr \<Rightarrow> ustr" where
  \<comment> \<open>lines 148-149\<close>
  "normalize_unit unit = (if unit = u ''cm'' then u ''mm'' else unit)"

definition array_tags :: "'f env \<Rightarrow> ustr \<Rightarrow> 'f header \<Rightarrow> error + 'f header" where
  \<comment> \<open>lines 138-173: the \<^verbatim>\<open>if\<close>/\<^verbatim>\<open>elif\<close> chain of the bracketed tags\<close>
  "array_tags ops line h =
     (if str_find line (u ''abscissa'') > 0 then
        (case findall unit_regex (rstrip line) of
           [] \<Rightarrow> Inl IndexError
         | m0 # _ \<Rightarrow>
             Inr (h(''xyz_units'' \<mapsto> Str (normalize_unit (strip_chr 34 m0)),
                    ''t_units'' \<mapsto> Str (u ''unknown''))))
      else if str_find line (u ''roi'') > 0 then
        bindE (mapE (\<lambda>x. bindE (py_float ops x) (\<lambda>v. Inr (fmul ops v (float_of_int ops 10))))
                 (findall float_regex (rstrip line)))
          (\<lambda>vs. Inr (h(''real_voxel_dim'' \<mapsto> Floats vs)))
      else if str_find line (u ''orientation'') > 0 then
        bindE (mapE (py_float ops) (findall float_regex (rstrip line)))
          (\<lambda>vs. Inr (h(''orientation'' \<mapsto> Floats vs)))
      else if str_find line (u ''origin'') > 0 then
        bindE (mapE (py_float ops) (findall float_regex (rstrip line)))
          (\<lambda>vs. Inr (h(''origin'' \<mapsto> Floats vs)))
      else if str_find line (u ''matrix'') > 0 then
        bindE (mapE (py_int ops) (findall (digit_regex ops) (rstrip line)))
          (\<lambda>vs. Inr (h(''shape'' \<mapsto> Ints vs)))
      else Inr h)"

definition process_line :: "'f env \<Rightarrow> 'f header \<Rightarrow> ustr \<Rightarrow> error + 'f header" where
  \<comment> \<open>the body of the \<^verbatim>\<open>while\<close> loop after the form-feed test, lines 126-173\<close>
  "process_line ops h line =
     bindE (scan_tags find_values line h) (\<lambda>h1.
     bindE (normalize_endian h1) (\<lambda>h2.
     array_tags ops line h2))"

fun split_lines :: "bytes \<Rightarrow> bytes list" where
  \<comment> \<open>the successive results of \<^verbatim>\<open>fp.readline()\<close>: each line keeps its newline\<close>
  "split_lines [] = []"
| "split_lines (b # bs) =
     (if b = CHR 0x0A then [b] # split_lines bs
      else (case split_lines bs of [] \<Rightarrow> [[b]] | l # ls \<Rightarrow> (b # l) # ls))"

fun read_header :: "'f env \<Rightarrow> bytes list \<Rightarrow> 'f header \<Rightarrow> error + 'f header" where
  \<comment> \<open>lines 119-173; at the end of the file \<^verbatim>\<open>readline\<close> returns \<^verbatim>\<open>b''\<close> and
      \<^verbatim>\<open>line[0]\<close> raises\<close>
  "read_header ops [] h = Inl IndexError"
| "read_header ops (l # ls) h =
     bindE (decode l) (\<lambda>line.
       (case line of
          [] \<Rightarrow> Inl IndexError
        | c # _ \<Rightarrow>
            if c = 12 then Inr h
            else bindE (process_line ops h line) (\<lambda>h'. read_header ops ls h')))"

definition initial_header :: "'f header" where
  \<comment> \<open>lines 93-96\<close>
  "initial_header = [''shape'' \<mapsto> Ints [- 1, - 1, 1, 1], ''endian'' \<mapsto> Str (u ''>'')]"


section \<open>Arrays\<close>

text \<open>
  A numpy array is its shape and its elements in row-major order.  The functions below
  are the numpy operations the reader calls, with the exceptions numpy raises.  An element
  of the data array is the 32-bit pattern of the single-precision float that
  \<^verbatim>\<open>struct.unpack\<close> read.
\<close>

record 'a ndarray =
  shp :: "nat list"
  elems :: "'a list"

fun unravel :: "nat list \<Rightarrow> nat \<Rightarrow> nat list" where
  \<comment> \<open>the index tuple of the \<open>n\<close>-th element\<close>
  "unravel [] n = []"
| "unravel (d # ds) n = n div prod_list ds # unravel ds (n mod prod_list ds)"

fun ravel :: "nat list \<Rightarrow> nat list \<Rightarrow> nat" where
  \<comment> \<open>the position of the element at an index tuple\<close>
  "ravel (d # ds) (i # is) = i * prod_list ds + ravel ds is"
| "ravel _ _ = 0"

definition np_array :: "'a list \<Rightarrow> 'a ndarray" where
  \<comment> \<open>\<^verbatim>\<open>np.array\<close> of a flat tuple\<close>
  "np_array xs = \<lparr>shp = [length xs], elems = xs\<rparr>"

definition too_big :: "int list \<Rightarrow> bool" where
  \<comment> \<open>numpy refuses an array of 8-byte items whose non-zero dimensions multiply to
      \<open>2 ^ 63\<close> bytes or more\<close>
  "too_big dims = (8 * prod_list (filter (\<lambda>d. d \<noteq> 0) dims) \<ge> 2 ^ 63)"

definition np_reshape :: "'a ndarray \<Rightarrow> int list \<Rightarrow> error + 'a ndarray" where
  \<comment> \<open>a negative entry is the one dimension numpy infers\<close>
  "np_reshape a dims =
     (let n = int (length (elems a)); unknown = filter (\<lambda>d. d < 0) dims;
          known = prod_list (filter (\<lambda>d. d \<ge> 0) dims) in
      if length unknown > 1 then Inl ValueError
      else if unknown = [] then
        (if too_big dims \<or> known \<noteq> n then Inl ValueError
         else Inr \<lparr>shp = map nat dims, elems = elems a\<rparr>)
      else if known = 0 \<or> n mod known \<noteq> 0 then Inl ValueError
      else Inr \<lparr>shp = map (\<lambda>d. if d < 0 then nat (n div known) else nat d) dims,
                elems = elems a\<rparr>)"

definition np_squeeze :: "'a ndarray \<Rightarrow> 'a ndarray" where
  "np_squeeze a = \<lparr>shp = filter (\<lambda>d. d \<noteq> 1) (shp a), elems = elems a\<rparr>"

definition index_of :: "nat \<Rightarrow> nat list \<Rightarrow> nat" where
  "index_of x xs = length (takeWhile (\<lambda>y. y \<noteq> x) xs)"

definition np_transpose :: "'a ndarray \<Rightarrow> nat list \<Rightarrow> error + 'a ndarray" where
  \<comment> \<open>axis \<open>k\<close> of the result is axis \<open>axes ! k\<close> of the argument\<close>
  "np_transpose a axes =
     (if sort axes \<noteq> [0..<length (shp a)] then Inl ValueError
      else
        (let s = shp a; s' = map (\<lambda>p. s ! p) axes in
         Inr \<lparr>shp = s',
              elems = map (\<lambda>n. let idx' = unravel s' n;
                                   idx = map (\<lambda>ax. idx' ! index_of ax axes) [0..<length s]
                               in elems a ! ravel s idx)
                        [0..<prod_list s']\<rparr>))"

definition np_flip :: "'a ndarray \<Rightarrow> nat \<Rightarrow> error + 'a ndarray" where
  \<comment> \<open>the order of one axis reversed: \<^verbatim>\<open>a[:, ::-1]\<close> is \<open>np_flip a 1\<close>\<close>
  "np_flip a axis =
     (if axis \<ge> length (shp a) then Inl IndexError
      else
        (let s = shp a in
         Inr \<lparr>shp = s,
              elems = map (\<lambda>n. let idx = unravel s n
                               in elems a ! ravel s (idx[axis := s ! axis - 1 - idx ! axis]))
                        [0..<prod_list s]\<rparr>))"

definition np_rot90 :: "'a ndarray \<Rightarrow> nat \<Rightarrow> error + 'a ndarray" where
  \<comment> \<open>\<^verbatim>\<open>np.rot90(m, k)\<close> in the plane of axes 0 and 1, as numpy defines it\<close>
  "np_rot90 m k =
     (if length (shp m) < 2 then Inl ValueError
      else
        (let axes_list = [1, 0] @ [2..<length (shp m)] in
         if k mod 4 = 0 then Inr m
         else if k mod 4 = 2 then bindE (np_flip m 0) (\<lambda>a. np_flip a 1)
         else if k mod 4 = 1 then bindE (np_flip m 1) (\<lambda>a. np_transpose a axes_list)
         else bindE (np_transpose m axes_list) (\<lambda>a. np_flip a 1)))"

definition np_stack :: "'a ndarray list \<Rightarrow> error + 'a ndarray" where
  \<comment> \<open>\<^verbatim>\<open>np.array\<close> of a tuple of arrays: they must agree in shape\<close>
  "np_stack as =
     (case as of
        [] \<Rightarrow> Inr \<lparr>shp = [0], elems = []\<rparr>
      | a # _ \<Rightarrow>
          if list_all (\<lambda>b. shp b = shp a) as
          then Inr \<lparr>shp = length as # shp a, elems = concat (map elems as)\<rparr>
          else Inl ValueError)"

section \<open>\<^verbatim>\<open>struct.unpack\<close>\<close>

fun chunks4 :: "bytes \<Rightarrow> bytes list" where
  "chunks4 (a # b # c # d # r) = [a, b, c, d] # chunks4 r"
| "chunks4 _ = []"

definition f32 :: "bool \<Rightarrow> bytes \<Rightarrow> 32 word" where
  \<comment> \<open>four bytes as one pattern; \<open>little\<close> puts the first byte lowest\<close>
  "f32 little bs =
     word_of_nat (foldr (\<lambda>b acc. of_char b + 256 * acc) (if little then bs else rev bs) 0)"

definition isdigit :: "nat \<Rightarrow> bool" where
  "isdigit c = (48 \<le> c \<and> c \<le> 57)"

definition nat_of_digits :: "ustr \<Rightarrow> nat" where
  "nat_of_digits ds = foldl (\<lambda>acc d. 10 * acc + (d - 48)) 0 ds"

definition struct_unpack :: "ustr \<Rightarrow> bytes \<Rightarrow> error + 32 word list" where
  \<comment> \<open>for the formats the reader builds: \<^verbatim>\<open><\<close> or \<^verbatim>\<open>>\<close>, a count, \<^verbatim>\<open>f\<close>.
      The buffer must hold exactly four bytes per item.\<close>
  "struct_unpack fmt buf =
     (case fmt of
        [] \<Rightarrow> Inl StructError
      | e # r \<Rightarrow>
          if e \<noteq> of_char CHR ''<'' \<and> e \<noteq> of_char CHR ''>'' then Inl StructError
          else if dropWhile isdigit r \<noteq> u ''f'' then Inl StructError
          else
            (let ds = takeWhile isdigit r; n = (if ds = [] then 1 else nat_of_digits ds) in
             if length buf \<noteq> 4 * n then Inl StructError
             else Inr (map (f32 (e = of_char CHR ''<'')) (chunks4 buf))))"

section \<open>\<^verbatim>\<open>read_file\<close>\<close>

definition set_fmt :: "'f header \<Rightarrow> int \<Rightarrow> error + 'f header" where
  \<comment> \<open>lines 180-184\<close>
  "set_fmt h nb_voxels =
     (let fmt = str_of_int nb_voxels @ u ''f'' in
      case h ''endian'' of
        None \<Rightarrow> Inl KeyError
      | Some (Str e) \<Rightarrow>
          if of_char CHR ''<'' \<in> set e then Inr (h(''fmt'' \<mapsto> Str (u ''<'' @ fmt)))
          else Inr (h(''fmt'' \<mapsto> Str (u ''>'' @ fmt)))
      | Some _ \<Rightarrow> Inl TypeError)"

definition read_data :: "bytes \<Rightarrow> ustr \<Rightarrow> int \<Rightarrow> error + 32 word list" where
  \<comment> \<open>lines 187-188: \<^verbatim>\<open>seek\<close> counts back from the end of the file and fails before
      its start\<close>
  "read_data file fmt nb_voxels =
     (let pos = int (length file) - nb_voxels * 4 in
      if pos < 0 then Inl OSError
      else struct_unpack fmt (take (nat (nb_voxels * 4)) (drop (nat pos) file)))"

definition voxel_dims :: "'f env \<Rightarrow> int list \<Rightarrow> 'f list \<Rightarrow> 'f number list" where
  \<comment> \<open>lines 191-193\<close>
  "voxel_dims ops shape real_voxel_dim =
     map (\<lambda>(i, j). Flt (fdiv ops j (float_of_int ops i))) (zip shape real_voxel_dim)"

definition orient :: "32 word list \<Rightarrow> int list \<Rightarrow> error + 32 word ndarray" where
  \<comment> \<open>lines 195-203\<close>
  "orient data shape =
     bindE (np_reshape (np_array data) (rev shape)) (\<lambda>a.
     bindE (if length shape \<noteq> 2 then np_transpose (np_squeeze a) [2, 1, 0]
            else Inr (np_squeeze a)) (\<lambda>b.
     bindE (np_rot90 b 3) (\<lambda>c.
     np_flip c 1)))"

definition read_file :: "'f env \<Rightarrow> bytes \<Rightarrow> error + ('f header \<times> 32 word ndarray)" where
  \<comment> \<open>the argument is the content of the file at \<^verbatim>\<open>file_path\<close>.  An empty
      \<^verbatim>\<open>shape\<close> array has a float product, which \<^verbatim>\<open>seek\<close> refuses.\<close>
  "read_file ops file =
     bindE (read_header ops (split_lines file) initial_header) (\<lambda>h.
       (case h ''shape'' of
          Some (Ints shape) \<Rightarrow>
            if shape = [] then Inl TypeError
            else
              (let nb_voxels = prod_list shape in
               bindE (set_fmt h nb_voxels) (\<lambda>h1.
                 (case h1 ''fmt'' of
                    Some (Str fmt) \<Rightarrow>
                      bindE (read_data file fmt nb_voxels) (\<lambda>data.
                        (case h1 ''real_voxel_dim'' of
                           Some (Floats rvd) \<Rightarrow>
                             (let h2 = h1(''voxel_dim'' \<mapsto> Nums (voxel_dims ops shape rvd)) in
                              bindE (orient data shape) (\<lambda>arr. Inr (h2, arr)))
                         | Some _ \<Rightarrow> Inl TypeError
                         | None \<Rightarrow> Inl KeyError))
                  | _ \<Rightarrow> Inl KeyError)))
        | Some _ \<Rightarrow> Inl TypeError
        | None \<Rightarrow> Inl KeyError))"

section \<open>An arithmetic for examples\<close>

text \<open>
  For the examples, floats are rationals and the operations are exact; a decimal literal
  denotes its value and only ASCII digits are digits.  The examples use short literals
  whose products and quotients binary64 computes without error (the float of 0.1 is not
  one tenth, but ten times it rounds to 1.0), so the numbers shown are the ones CPython
  computes.
\<close>

fun frac_digits :: "ustr \<Rightarrow> rat \<Rightarrow> rat \<Rightarrow> rat option" where
  "frac_digits [] acc w = Some acc"
| "frac_digits (c # cs) acc w =
     (if isdigit c then frac_digits cs (acc + of_nat (c - 48) * w) (w / 10) else None)"

definition decimal :: "ustr \<Rightarrow> rat option" where
  \<comment> \<open>an unsigned literal \<^verbatim>\<open>digits\<close>, \<^verbatim>\<open>digits.digits\<close>, \<^verbatim>\<open>.digits\<close> or \<^verbatim>\<open>digits.\<close>\<close>
  "decimal s =
     (let ip = takeWhile isdigit s; r = dropWhile isdigit s in
      if r = [] then (if ip = [] then None else Some (of_nat (nat_of_digits ip)))
      else if hd r = 46 \<and> \<not> (ip = [] \<and> tl r = [])
        then frac_digits (tl r) (of_nat (nat_of_digits ip)) (1 / 10)
      else None)"

definition exact_float :: "ustr \<Rightarrow> rat option" where
  "exact_float s =
     (let t = dropWhile isspace (rstrip s) in
      case t of
        [] \<Rightarrow> None
      | c # cs \<Rightarrow>
          if c = 45 then map_option uminus (decimal cs)
          else if c = 43 then decimal cs
          else decimal t)"

definition half_even :: "rat \<Rightarrow> int" where
  "half_even x =
     (let f = \<lfloor>x\<rfloor>; d = x - of_int f in
      if d < 1 / 2 then f else if d > 1 / 2 then f + 1 else if even f then f else f + 1)"

definition exact :: "rat env" where
  "exact = \<lparr>float_of_str = exact_float,
            float_of_int = of_int,
            fmul = (*),
            fdiv = (/),
            fneg = uminus,
            int_of_float = (\<lambda>x. Inr (if x \<ge> 0 then \<lfloor>x\<rfloor> else \<lceil>x\<rceil>)),
            truediv_int = (\<lambda>a b. of_int a / of_int b),
            float_round = (\<lambda>x. Inr (half_even x)),
            digit_value = (\<lambda>c. if isdigit c then Some (c - 48) else None)\<rparr>"


section \<open>\<^verbatim>\<open>read_directory\<close>\<close>

text \<open>
  The header dictionaries that \<^verbatim>\<open>read_file\<close> returns are objects, and
  \<^verbatim>\<open>final_header = all_headers[0]\<close> is a second name for the first of them.  To keep
  that visible the dictionaries live in a store: the dictionary of the \<open>i\<close>-th file is at
  address \<open>i\<close>, and an assignment through \<^verbatim>\<open>final_header\<close> updates the store at the
  address it holds.  The arrays are values: nothing writes into one.
\<close>

type_synonym 'f store = "'f header list"

definition getitem :: "'f store \<Rightarrow> nat \<Rightarrow> string \<Rightarrow> error + 'f pyval" where
  "getitem st a k = (case (st ! a) k of None \<Rightarrow> Inl KeyError | Some v \<Rightarrow> Inr v)"

definition setitem :: "'f store \<Rightarrow> nat \<Rightarrow> string \<Rightarrow> 'f pyval \<Rightarrow> 'f store" where
  "setitem st a k v = st[a := (st ! a)(k \<mapsto> v)]"

definition unpack_pairs :: "('a \<times> 'b) list \<Rightarrow> error + ('a list \<times> 'b list)" where
  \<comment> \<open>\<^verbatim>\<open>all_headers, all_data = zip(*pairs)\<close>: with no pair, \<^verbatim>\<open>zip()\<close> yields nothing
      and the assignment to two names raises\<close>
  "unpack_pairs ps = (if ps = [] then Inl ValueError else Inr (map fst ps, map snd ps))"

definition extend_voxel_dim :: "'f store \<Rightarrow> nat \<Rightarrow> error + 'f store" where
  \<comment> \<open>lines 241-243\<close>
  "extend_voxel_dim st fh =
     bindE (getitem st fh ''shape'') (\<lambda>sv.
     bindE (getitem st fh ''voxel_dim'') (\<lambda>vv.
       (case (sv, vv) of
          (Ints shape, Nums vd) \<Rightarrow>
            if length shape \<noteq> length vd then
              bindE (getitem st fh ''real_voxel_dim'') (\<lambda>rv.
                (case rv of
                   Floats rvd \<Rightarrow>
                     Inr (setitem st fh ''voxel_dim''
                            (Nums (vd @ map Flt (drop (length shape - 1) rvd))))
                 | _ \<Rightarrow> Inl TypeError))
            else Inr st
        | _ \<Rightarrow> Inl TypeError)))"

definition append_voxel_dim :: "'f store \<Rightarrow> nat \<Rightarrow> 'f number \<Rightarrow> error + 'f store" where
  \<comment> \<open>\<^verbatim>\<open>final_header['voxel_dim'].append(x)\<close>\<close>
  "append_voxel_dim st fh x =
     bindE (getitem st fh ''voxel_dim'') (\<lambda>vv.
       (case vv of
          Nums vd \<Rightarrow> Inr (setitem st fh ''voxel_dim'' (Nums (vd @ [x])))
        | _ \<Rightarrow> Inl TypeError))"

definition declared_time :: "'f env \<Rightarrow> 'f store \<Rightarrow> nat \<Rightarrow> error + int" where
  \<comment> \<open>line 246: \<^verbatim>\<open>int(float(final_header['array_dim']))\<close>\<close>
  "declared_time ops st fh =
     bindE (getitem st fh ''array_dim'') (\<lambda>av.
       (case av of
          Str s \<Rightarrow> bindE (py_float ops s) (int_of_float ops)
        | _ \<Rightarrow> Inl TypeError))"

definition split_time ::
  "'f env \<Rightarrow> 32 word ndarray \<Rightarrow> 'f store \<Rightarrow> nat \<Rightarrow> int
     \<Rightarrow> error + (32 word ndarray \<times> 'f store)" where
  \<comment> \<open>lines 248-255\<close>
  "split_time ops all_data st fh time =
     bindE (getitem st fh ''shape'') (\<lambda>sv.
       (case sv of
          Ints [s0, s1, s2] \<Rightarrow>
            bindE (float_round ops (truediv_int ops s2 time)) (\<lambda>third.
              (let shape = [s0, s1, third, time];
                   st1 = setitem st fh ''shape'' (Ints shape) in
               bindE (append_voxel_dim st1 fh (IntNum 1)) (\<lambda>st2.
               bindE (np_reshape all_data shape) (\<lambda>vol.
               Inr (vol, st2)))))
        | _ \<Rightarrow> Inl IndexError))"

definition assemble3 ::
  "'f env \<Rightarrow> 32 word ndarray \<Rightarrow> 'f store \<Rightarrow> nat \<Rightarrow> error + (32 word ndarray \<times> 'f store)" where
  \<comment> \<open>lines 235-255: the slices are two-dimensional\<close>
  "assemble3 ops stacked st fh =
     bindE (np_transpose stacked [1, 2, 0]) (\<lambda>all_data.
       (let st1 = setitem st fh ''shape'' (Ints (map int (shp all_data))) in
        bindE (extend_voxel_dim st1 fh) (\<lambda>st2.
        bindE (declared_time ops st2 fh) (\<lambda>time.
          if time > 1 then split_time ops all_data st2 fh time
          else Inr (all_data, st2)))))"

definition assemble4 ::
  "'f env \<Rightarrow> 32 word ndarray \<Rightarrow> 'f store \<Rightarrow> nat \<Rightarrow> error + (32 word ndarray \<times> 'f store)" where
  \<comment> \<open>lines 257-260: the slices are volumes\<close>
  "assemble4 ops stacked st fh =
     bindE (np_transpose stacked [3, 2, 1, 0]) (\<lambda>a.
     bindE (np_transpose a [1, 0, 2, 3]) (\<lambda>all_data.
       (let st1 = setitem st fh ''shape'' (Ints (map int (shp all_data))) in
        bindE (append_voxel_dim st1 fh (Flt (float_of_int ops 1))) (\<lambda>st2.
        Inr (all_data, st2)))))"

record 'f volume =
  vol_data :: "32 word ndarray"
  final_header :: nat
  headers :: "'f store"

definition read_directory :: "'f env \<Rightarrow> bytes list \<Rightarrow> error + 'f volume option" where
  \<comment> \<open>the argument lists the contents of the \<^verbatim>\<open>*.fdf\<close> files of the directory in the
      order of their sorted names.  The result \<open>None\<close> is line 228.\<close>
  "read_directory ops files =
     bindE (mapE (read_file ops) files) (\<lambda>slices.
     bindE (unpack_pairs slices) (\<lambda>(all_headers, all_data).
       if all_headers = [] then Inr None
       else
         (let final_header = 0 in
          bindE (np_stack all_data) (\<lambda>stacked.
          bindE (if length (shp stacked) < 4 then assemble3 ops stacked all_headers final_header
                 else assemble4 ops stacked all_headers final_header) (\<lambda>(vol, st).
          Inr (Some \<lparr>vol_data = vol, final_header = final_header, headers = st\<rparr>))))))"

section \<open>\<^verbatim>\<open>add_gradient_info\<close> and \<^verbatim>\<open>load_fdf\<close>\<close>

text \<open>
  A Python object that \<^verbatim>\<open>load_fdf\<close> handles is a header dictionary or an array.
  The \<^verbatim>\<open>procpar\<close> file is the list of its text lines.
\<close>

datatype 'f pyobj = Hdr "'f header" | Arr "32 word ndarray"

definition grab :: "ustr \<Rightarrow> ustr \<Rightarrow> ustr option \<times> ustr list \<Rightarrow> error + (ustr option \<times> ustr list)" where
  \<comment> \<open>\<^verbatim>\<open>if line.startswith(key): x = next(procpar)\<close>\<close>
  "grab line key st =
     (if startswith line key then
        (case snd st of [] \<Rightarrow> Inl StopIteration | n # r \<Rightarrow> Inr (Some n, r))
      else Inr st)"

lemma grab_length: "grab line key (cur, rest) = Inr (cur', rest') \<Longrightarrow> length rest' \<le> length rest"
  by (auto simp: grab_def split: if_splits list.splits)

function scan_procpar ::
  "ustr list \<Rightarrow> ustr option \<times> ustr option \<times> ustr option \<times> ustr option
     \<Rightarrow> error + (ustr option \<times> ustr option \<times> ustr option \<times> ustr option)" where
  \<comment> \<open>lines 63-71: the four tests read the same \<^verbatim>\<open>line\<close>, and each \<^verbatim>\<open>next\<close> takes
      a line from the loop\<close>
  "scan_procpar [] found = Inr found"
| "scan_procpar (line # rest) (bval, diff_x, diff_y, diff_z) =
     (case grab line (u ''bvalue'') (bval, rest) of
        Inl e \<Rightarrow> Inl e
      | Inr (bval', r1) \<Rightarrow>
     (case grab line (u ''dpe '') (diff_x, r1) of
        Inl e \<Rightarrow> Inl e
      | Inr (diff_x', r2) \<Rightarrow>
     (case grab line (u ''dro '') (diff_y, r2) of
        Inl e \<Rightarrow> Inl e
      | Inr (diff_y', r3) \<Rightarrow>
     (case grab line (u ''dsl '') (diff_z, r3) of
        Inl e \<Rightarrow> Inl e
      | Inr (diff_z', r4) \<Rightarrow> scan_procpar r4 (bval', diff_x', diff_y', diff_z')))))"
  by pat_completeness auto
termination
  by (relation "measure (\<lambda>(ls, f). length ls)") (auto dest!: grab_length)

definition values_of :: "'f env \<Rightarrow> ('f \<Rightarrow> 'f) \<Rightarrow> ustr \<Rightarrow> error + 'f pyval" where
  \<comment> \<open>\<^verbatim>\<open>[float(x) for x in s.split()[1:]]\<close>\<close>
  "values_of ops f s =
     bindE (mapE (\<lambda>w. bindE (py_float ops w) (\<lambda>v. Inr (f v))) (tl (split s)))
       (\<lambda>vs. Inr (Floats vs))"

definition add_gradient_info :: "'f env \<Rightarrow> ustr list \<Rightarrow> 'f pyobj \<Rightarrow> error + 'f pyobj" where
  \<comment> \<open>lines 60-77; the result is the object \<^verbatim>\<open>header\<close> after the call.  \<^verbatim>\<open>None\<close>
      and the empty string are false.  An array refuses a string as an index.\<close>
  "add_gradient_info ops procpar header =
     bindE (scan_procpar procpar (None, None, None, None)) (\<lambda>found.
       (case found of
          (Some bval, Some diff_x, Some diff_y, Some diff_z) \<Rightarrow>
            (if bval \<noteq> [] \<and> diff_x \<noteq> [] \<and> diff_y \<noteq> [] \<and> diff_z \<noteq> [] then
              bindE (values_of ops id bval) (\<lambda>b.
                (case header of
                   Arr a \<Rightarrow> Inl IndexError
                 | Hdr h \<Rightarrow>
                     bindE (values_of ops (fneg ops) diff_x) (\<lambda>x.
                     bindE (values_of ops id diff_y) (\<lambda>y.
                     bindE (values_of ops id diff_z) (\<lambda>z.
                     Inr (Hdr (h(''bvalue'' \<mapsto> b, ''diff_x'' \<mapsto> x, ''diff_y'' \<mapsto> y,
                                 ''diff_z'' \<mapsto> z))))))))
             else Inr header)
        | _ \<Rightarrow> Inr header))"

datatype target = Directory "bytes list" | RegularFile bytes

definition load_fdf ::
  "'f env \<Rightarrow> target \<Rightarrow> ustr list option \<Rightarrow> error + ('f pyobj \<times> 'f pyobj)" where
  \<comment> \<open>\<open>target\<close> is what \<^verbatim>\<open>file_path\<close> names; the third argument is the
      \<^verbatim>\<open>procpar\<close> file beside it, if there is one.  The result is the pair
      \<^verbatim>\<open>(data, header)\<close> of line 42.\<close>
  "load_fdf ops file_path procpar =
     bindE
       (case file_path of
          Directory files \<Rightarrow>
            bindE (read_directory ops files) (\<lambda>r.
              (case r of
                 None \<Rightarrow> Inl TypeError
               | Some v \<Rightarrow> Inr (Arr (vol_data v), Hdr (headers v ! final_header v))))
        | RegularFile file \<Rightarrow>
            bindE (read_file ops file) (\<lambda>(first, second). Inr (Hdr first, Arr second)))
       (\<lambda>(data, header).
          (case procpar of
             Some lines \<Rightarrow>
               bindE (add_gradient_info ops lines header) (\<lambda>header'. Inr (data, header'))
           | None \<Rightarrow> Inr (data, header)))"

section \<open>Observations and example files\<close>

definition header_fields ::
  "string list \<Rightarrow> error + ('f header \<times> 'a) \<Rightarrow> error + ('f pyval option list \<times> 'a)" where
  \<comment> \<open>the values of some keys of a returned header, beside the returned array\<close>
  "header_fields ks r = map_sum id (\<lambda>(h, a). (map h ks, a)) r"

definition fdf :: "string list \<Rightarrow> bytes \<Rightarrow> bytes" where
  \<comment> \<open>a file: header lines, a line that holds the form feed, the binary data\<close>
  "fdf header_lines payload =
     concat (map (\<lambda>l. l @ [CHR 0x0A]) header_lines) @ [CHR 0x0C, CHR 0x0A] @ payload"

fun after_form_feed :: "bytes list \<Rightarrow> bytes option" where
  "after_form_feed [] = None"
| "after_form_feed (l # ls) =
     (case l of
        [] \<Rightarrow> after_form_feed ls
      | c # cs \<Rightarrow> if c = CHR 0x0C then Some (cs @ concat ls) else after_form_feed ls)"

definition payload :: "bytes \<Rightarrow> bytes option" where
  \<comment> \<open>the bytes of a file after the form feed that ends its header\<close>
  "payload file = after_form_feed (split_lines file)"

text \<open>
  The example of the specification: a 4 by 4 matrix, three extents, the flag
  \<^verbatim>\<open>bigendian = 0\<close>, and the floats 0.0 to 15.0 in little-endian order.  The form feed
  is on a line of its own, as the scanner writes it: the reader decodes the line that
  starts with the form feed as UTF-8, which bytes of the floats (\<^verbatim>\<open>0x80\<close> in 1.0) are
  not.
\<close>

definition spec_example :: bytes where
  "spec_example =
     fdf [''int matrix[] = {4,4};'', ''float roi[] = {1.0,1.0,0.1};'', ''int bigendian = 0;'']
       [CHR 0x00, CHR 0x00, CHR 0x00, CHR 0x00, CHR 0x00, CHR 0x00, CHR 0x80, CHR 0x3F,
       CHR 0x00, CHR 0x00, CHR 0x00, CHR 0x40, CHR 0x00, CHR 0x00, CHR 0x40, CHR 0x40,
       CHR 0x00, CHR 0x00, CHR 0x80, CHR 0x40, CHR 0x00, CHR 0x00, CHR 0xA0, CHR 0x40,
       CHR 0x00, CHR 0x00, CHR 0xC0, CHR 0x40, CHR 0x00, CHR 0x00, CHR 0xE0, CHR 0x40,
       CHR 0x00, CHR 0x00, CHR 0x00, CHR 0x41, CHR 0x00, CHR 0x00, CHR 0x10, CHR 0x41,
       CHR 0x00, CHR 0x00, CHR 0x20, CHR 0x41, CHR 0x00, CHR 0x00, CHR 0x30, CHR 0x41,
       CHR 0x00, CHR 0x00, CHR 0x40, CHR 0x41, CHR 0x00, CHR 0x00, CHR 0x50, CHR 0x41,
       CHR 0x00, CHR 0x00, CHR 0x60, CHR 0x41, CHR 0x00, CHR 0x00, CHR 0x70, CHR 0x41]"

section \<open>Evaluation\<close>

lemma floor_numeral_quotient: "\<lfloor>numeral a / numeral b :: rat\<rfloor> = numeral a div numeral b"
  using floor_divide_of_int_eq [of "numeral a" "numeral b", where ?'a = rat] by simp

lemmas eval_defs =
  bindE_def u_def cont_def decode_def str_find_def startswith_def isspace_def rstrip_def
  strip_chr_def split_def str_of_int_def captured_def chr_is_def in_range_def float_regex_def
  named_value_regex_def unit_regex_def py_float_def py_int_def digit_regex_def find_values_def
  normalize_endian_def normalize_unit_def array_tags_def process_line_def initial_header_def
  np_array_def too_big_def np_reshape_def np_squeeze_def index_of_def np_transpose_def
  np_flip_def np_rot90_def np_stack_def f32_def isdigit_def nat_of_digits_def struct_unpack_def
  set_fmt_def read_data_def voxel_dims_def orient_def read_file_def decimal_def exact_float_def
  half_even_def exact_def Let_def upt_conv_Cons header_fields_def fdf_def payload_def
  digits_of.simps findall.simps floor_numeral_quotient

lemma spec_example_read:
  "header_fields [''endian'', ''fmt'', ''shape'', ''real_voxel_dim'', ''voxel_dim'']
     (read_file exact spec_example) =
   Inr ([Some (Str (u ''0'')), Some (Str (u ''>16f'')), Some (Ints [4, 4]),
         Some (Floats [10, 10, 1]), Some (Nums [Flt (5 / 2), Flt (5 / 2)])],
        \<lparr>shp = [4, 4],
         elems = [0x00000000, 0x00008040, 0x00000041, 0x00004041, 0x0000803F,
                  0x0000A040, 0x00001041, 0x00005041, 0x00000040, 0x0000C040,
                  0x00002041, 0x00006041, 0x00004040, 0x0000E040, 0x00003041,
                  0x00007041]\<rparr>)"
  by (simp add: eval_defs spec_example_def)

lemma header_fields_Inr:
  assumes "header_fields ks r = Inr (vs, a)"
  obtains h where "r = Inr (h, a)" "map h ks = vs"
  using assms by (cases r) (auto simp: header_fields_def)

section \<open>Successful runs of \<^verbatim>\<open>read_file\<close>\<close>

lemma bindE_Inr_iff: "bindE m f = Inr y \<longleftrightarrow> (\<exists>x. m = Inr x \<and> f x = Inr y)"
  by (cases m) (simp_all add: bindE_def)

lemma set_fmt_Inr:
  assumes "set_fmt h n = Inr h1"
  obtains fmt where "h1 = h(''fmt'' \<mapsto> Str fmt)"
  using assms by (auto simp: set_fmt_def Let_def split: option.splits pyval.splits if_splits)

lemma read_file_Inr:
  assumes "read_file ops file = Inr (h, a)"
  obtains h0 shape fmt data rvd where
    "read_header ops (split_lines file) initial_header = Inr h0"
    "h0 ''shape'' = Some (Ints shape)" "shape \<noteq> []"
    "set_fmt h0 (prod_list shape) = Inr (h0(''fmt'' \<mapsto> Str fmt))"
    "read_data file fmt (prod_list shape) = Inr data"
    "h0 ''real_voxel_dim'' = Some (Floats rvd)"
    "h = h0(''fmt'' \<mapsto> Str fmt, ''voxel_dim'' \<mapsto> Nums (voxel_dims ops shape rvd))"
    "orient data shape = Inr a"
proof -
  from assms obtain h0 where h0: "read_header ops (split_lines file) initial_header = Inr h0"
    and rest: "(case h0 ''shape'' of
          Some (Ints shape) \<Rightarrow>
            if shape = [] then Inl TypeError
            else
              (let nb_voxels = prod_list shape in
               bindE (set_fmt h0 nb_voxels) (\<lambda>h1.
                 (case h1 ''fmt'' of
                    Some (Str fmt) \<Rightarrow>
                      bindE (read_data file fmt nb_voxels) (\<lambda>data.
                        (case h1 ''real_voxel_dim'' of
                           Some (Floats rvd) \<Rightarrow>
                             (let h2 = h1(''voxel_dim'' \<mapsto> Nums (voxel_dims ops shape rvd)) in
                              bindE (orient data shape) (\<lambda>arr. Inr (h2, arr)))
                         | Some _ \<Rightarrow> Inl TypeError
                         | None \<Rightarrow> Inl KeyError))
                  | _ \<Rightarrow> Inl KeyError)))
        | Some _ \<Rightarrow> Inl TypeError
        | None \<Rightarrow> Inl KeyError) = Inr (h, a)"
    unfolding read_file_def bindE_Inr_iff by blast
  from rest obtain shape where shape: "h0 ''shape'' = Some (Ints shape)" "shape \<noteq> []"
    by (auto split: option.splits pyval.splits if_splits)
  with rest obtain h1 where h1: "set_fmt h0 (prod_list shape) = Inr h1"
    and rest1: "(case h1 ''fmt'' of
                    Some (Str fmt) \<Rightarrow>
                      bindE (read_data file fmt (prod_list shape)) (\<lambda>data.
                        (case h1 ''real_voxel_dim'' of
                           Some (Floats rvd) \<Rightarrow>
                             (let h2 = h1(''voxel_dim'' \<mapsto> Nums (voxel_dims ops shape rvd)) in
                              bindE (orient data shape) (\<lambda>arr. Inr (h2, arr)))
                         | Some _ \<Rightarrow> Inl TypeError
                         | None \<Rightarrow> Inl KeyError))
                  | _ \<Rightarrow> Inl KeyError) = Inr (h, a)"
    by (auto simp: Let_def bindE_Inr_iff)
  from h1 obtain fmt where fmt: "h1 = h0(''fmt'' \<mapsto> Str fmt)"
    by (rule set_fmt_Inr)
  with rest1 obtain data where data: "read_data file fmt (prod_list shape) = Inr data"
    and rest2: "(case h1 ''real_voxel_dim'' of
                           Some (Floats rvd) \<Rightarrow>
                             (let h2 = h1(''voxel_dim'' \<mapsto> Nums (voxel_dims ops shape rvd)) in
                              bindE (orient data shape) (\<lambda>arr. Inr (h2, arr)))
                         | Some _ \<Rightarrow> Inl TypeError
                         | None \<Rightarrow> Inl KeyError) = Inr (h, a)"
    by (auto simp: bindE_Inr_iff)
  from rest2 obtain rvd where rvd: "h1 ''real_voxel_dim'' = Some (Floats rvd)"
    and fin: "h = h1(''voxel_dim'' \<mapsto> Nums (voxel_dims ops shape rvd))" "orient data shape = Inr a"
    by (auto simp: Let_def bindE_Inr_iff split: option.splits pyval.splits)
  from rvd fmt have "h0 ''real_voxel_dim'' = Some (Floats rvd)" by simp
  with h0 shape h1 fmt data fin show thesis
    by (intro that [of h0 shape fmt data rvd]) simp_all
qed

lemma read_file_header:
  assumes "read_file ops file = Inr (h, a)"
  obtains shape rvd where
    "h ''shape'' = Some (Ints shape)" "shape \<noteq> []"
    "h ''real_voxel_dim'' = Some (Floats rvd)"
    "h ''voxel_dim'' = Some (Nums (voxel_dims ops shape rvd))"
proof -
  from assms obtain h0 shape fmt data rvd where
    "h0 ''shape'' = Some (Ints shape)" "shape \<noteq> []"
    "h0 ''real_voxel_dim'' = Some (Floats rvd)"
    "h = h0(''fmt'' \<mapsto> Str fmt, ''voxel_dim'' \<mapsto> Nums (voxel_dims ops shape rvd))"
    by (rule read_file_Inr)
  then show thesis
    by (intro that [of shape rvd]) simp_all
qed



text \<open>
  A file that declares a 2 by 2 matrix, 16 bytes of data, and holds the 12 bytes of the
  floats 2.0, 3.0, 2.0 after its form feed, and a file that ends with its header.
\<close>

definition truncated_file :: bytes where
  "truncated_file =
     ''int matrix[] = {2,2};'' @ [CHR 0x0A] @ ''float roi[] = {1.0,1.0,0.5};'' @ [CHR 0x0A] @
     [CHR 0x0C] @ [CHR 0x00, CHR 0x00, CHR 0x00, CHR 0x40, CHR 0x00, CHR 0x00, CHR 0x40, CHR 0x40,
     CHR 0x00, CHR 0x00, CHR 0x00, CHR 0x40]"

definition header_only :: bytes where
  "header_only = fdf [''int matrix[] = {4,4};'', ''float roi[] = {1.0,1.0,0.5};''] []"

lemma truncated_file_read:
  "header_fields [''shape'', ''fmt''] (read_file exact truncated_file) =
   Inr ([Some (Ints [2, 2]), Some (Str (u ''>4f''))],
        \<lparr>shp = [2, 2], elems = [0x7D3B0A0C, 0x00004040, 0x00000040, 0x00000040]\<rparr>)"
  by (simp add: eval_defs truncated_file_def)

lemma header_only_header:
  "map_sum id (\<lambda>h. h ''shape'') (read_header exact (split_lines header_only) initial_header) =
   Inr (Some (Ints [4, 4]))"
  by (simp add: eval_defs header_only_def)

text \<open>
  Two lines that declare units: \<^verbatim>\<open>char  *abscissa[] = {"cm", "cm"};\<close> and the same
  with \<^verbatim>\<open>mm\<close>.
\<close>

definition abscissa_cm :: ustr where
  "abscissa_cm =
     u (''char  *abscissa[] = {'' @ [CHR 0x22] @ ''cm'' @ [CHR 0x22] @ '', '' @ [CHR 0x22] @
        ''cm'' @ [CHR 0x22] @ ''};'' @ [CHR 0x0A])"

definition abscissa_mm :: ustr where
  "abscissa_mm =
     u (''char  *abscissa[] = {'' @ [CHR 0x22] @ ''mm'' @ [CHR 0x22] @ '', '' @ [CHR 0x22] @
        ''mm'' @ [CHR 0x22] @ ''};'' @ [CHR 0x0A])"

lemma abscissa_cm_read:
  "map_sum id (\<lambda>h. [h ''xyz_units'', h ''t_units'']) (process_line exact initial_header abscissa_cm)
   = Inr [Some (Str (u ''mm'')), Some (Str (u ''unknown''))]"
  by (simp add: eval_defs abscissa_cm_def)

lemma abscissa_mm_read:
  "map_sum id (\<lambda>h. [h ''xyz_units'', h ''t_units'']) (process_line exact initial_header abscissa_mm)
   = Inr [Some (Str (u ''mm'')), Some (Str (u ''unknown''))]"
  by (simp add: eval_defs abscissa_mm_def)

text \<open>
  Two slices of a directory, each a 2 by 2 matrix of big-endian floats (1.0 to 4.0 and
  5.0 to 8.0), with a repetition count of 1.
\<close>

definition slice_a :: bytes where
  "slice_a =
     fdf [''int matrix[] = {2,2};'', ''float roi[] = {1.0,1.0,0.5};'', ''float array_dim = 1;'']
       [CHR 0x3F, CHR 0x80, CHR 0x00, CHR 0x00, CHR 0x40, CHR 0x00, CHR 0x00, CHR 0x00,
       CHR 0x40, CHR 0x40, CHR 0x00, CHR 0x00, CHR 0x40, CHR 0x80, CHR 0x00, CHR 0x00]"

definition slice_b :: bytes where
  "slice_b =
     fdf [''int matrix[] = {2,2};'', ''float roi[] = {1.0,1.0,0.5};'', ''float array_dim = 1;'']
       [CHR 0x40, CHR 0xA0, CHR 0x00, CHR 0x00, CHR 0x40, CHR 0xC0, CHR 0x00, CHR 0x00,
       CHR 0x40, CHR 0xE0, CHR 0x00, CHR 0x00, CHR 0x41, CHR 0x00, CHR 0x00, CHR 0x00]"

definition slice_field ::
  "string \<Rightarrow> error + ('f header \<times> 'a) list \<Rightarrow> error + 'f pyval option list" where
  \<comment> \<open>the value of a key in each header of a list of slices\<close>
  "slice_field k r = map_sum id (map (\<lambda>(h, a). h k)) r"

definition stored :: "string \<Rightarrow> error + 'f volume option \<Rightarrow> error + 'f pyval option list option" where
  \<comment> \<open>the value of a key in each header of the store after the assembly\<close>
  "stored k r = map_sum id (map_option (\<lambda>v. map (\<lambda>h. h k) (headers v))) r"

definition volume_shape :: "error + 'f volume option \<Rightarrow> error + nat list option" where
  "volume_shape r = map_sum id (map_option (\<lambda>v. shp (vol_data v))) r"

lemmas eval_dir_defs =
  getitem_def setitem_def unpack_pairs_def extend_voxel_dim_def append_voxel_dim_def
  declared_time_def split_time_def assemble3_def assemble4_def read_directory_def
  slice_field_def stored_def volume_shape_def

lemma two_slices_read:
  "slice_field ''shape'' (mapE (read_file exact) [slice_a, slice_b]) =
     Inr [Some (Ints [2, 2]), Some (Ints [2, 2])] \<and>
   slice_field ''voxel_dim'' (mapE (read_file exact) [slice_a, slice_b]) =
     Inr [Some (Nums [Flt 5, Flt 5]), Some (Nums [Flt 5, Flt 5])]"
  by (simp add: eval_defs eval_dir_defs slice_a_def slice_b_def)

lemma two_slices_assembled:
  "stored ''shape'' (read_directory exact [slice_a, slice_b]) =
     Inr (Some [Some (Ints [2, 2, 2]), Some (Ints [2, 2])]) \<and>
   stored ''voxel_dim'' (read_directory exact [slice_a, slice_b]) =
     Inr (Some [Some (Nums [Flt 5, Flt 5, Flt 5]), Some (Nums [Flt 5, Flt 5])])"
  by (simp add: eval_defs eval_dir_defs slice_a_def slice_b_def)





section \<open>Where \<^verbatim>\<open>real_voxel_dim\<close> comes from\<close>

lemma mapE_Inr_iff:
  "mapE (\<lambda>x. bindE (f x) (\<lambda>v. Inr (g v))) xs = Inr ys \<longleftrightarrow>
   (\<exists>vs. mapE f xs = Inr vs \<and> ys = map g vs)"
proof (induction xs arbitrary: ys)
  case Nil
  show ?case by auto
next
  case (Cons x xs)
  show ?case
  proof (cases "f x")
    case (Inl e)
    then show ?thesis by (simp add: bindE_def)
  next
    case (Inr v)
    show ?thesis
    proof (cases "mapE (\<lambda>x. bindE (f x) (\<lambda>v. Inr (g v))) xs")
      case (Inl e)
      with Cons.IH have "\<And>vs. mapE f xs \<noteq> Inr vs"
        by auto
      with Inl Inr show ?thesis
        by (auto simp: bindE_def split: sum.splits)
    next
      case (Inr ys')
      with Cons.IH obtain vs where "mapE f xs = Inr vs" "ys' = map g vs"
        by auto
      with Inr \<open>f x = Inr v\<close> show ?thesis
        by (auto simp: bindE_def)
    qed
  qed
qed

definition set_by_roi :: "'f env \<Rightarrow> bytes list \<Rightarrow> 'f pyval option \<Rightarrow> bool" where
  \<comment> \<open>the value is ten times the numbers of one of the lines, which has \<^verbatim>\<open>roi\<close> after
      its first column\<close>
  "set_by_roi ops ls v =
     (\<exists>l line vs. l \<in> set ls \<and> decode l = Inr line \<and> 0 < str_find line (u ''roi'') \<and>
        mapE (py_float ops) (findall float_regex (rstrip line)) = Inr vs \<and>
        v = Some (Floats (map (\<lambda>v. fmul ops v (float_of_int ops 10)) vs)))"

lemma scan_tags_other:
  assumes "scan_tags tags line h = Inr h'" "k \<notin> snd ` set tags"
  shows "h' k = h k"
  using assms by (induction tags line h rule: scan_tags.induct) (auto split: if_splits list.splits)

lemma normalize_endian_other:
  assumes "normalize_endian h = Inr h'" "k \<noteq> ''endian''"
  shows "h' k = h k"
  using assms by (auto simp: normalize_endian_def split: option.splits pyval.splits)

lemma array_tags_roi:
  assumes "array_tags ops line h = Inr h'"
  shows "h' ''real_voxel_dim'' = h ''real_voxel_dim'' \<or>
    (0 < str_find line (u ''roi'') \<and>
     (\<exists>vs. mapE (py_float ops) (findall float_regex (rstrip line)) = Inr vs \<and>
        h' ''real_voxel_dim'' = Some (Floats (map (\<lambda>v. fmul ops v (float_of_int ops 10)) vs))))"
proof (cases "0 < str_find line (u ''abscissa'')")
  case True
  with assms show ?thesis
    by (auto simp: array_tags_def split: list.splits)
next
  case no_abscissa: False
  show ?thesis
  proof (cases "0 < str_find line (u ''roi'')")
    case True
    with no_abscissa assms obtain ys where
      "mapE (\<lambda>x. bindE (py_float ops x) (\<lambda>v. Inr (fmul ops v (float_of_int ops 10))))
         (findall float_regex (rstrip line)) = Inr ys"
      "h' = h(''real_voxel_dim'' \<mapsto> Floats ys)"
      by (auto simp: array_tags_def bindE_Inr_iff)
    with True show ?thesis
      by (auto simp: mapE_Inr_iff)
  next
    case False
    with no_abscissa assms show ?thesis
      by (auto simp: array_tags_def bindE_Inr_iff split: if_splits)
  qed
qed

lemma process_line_roi:
  assumes "process_line ops h line = Inr h'"
  shows "h' ''real_voxel_dim'' = h ''real_voxel_dim'' \<or>
    (0 < str_find line (u ''roi'') \<and>
     (\<exists>vs. mapE (py_float ops) (findall float_regex (rstrip line)) = Inr vs \<and>
        h' ''real_voxel_dim'' = Some (Floats (map (\<lambda>v. fmul ops v (float_of_int ops 10)) vs))))"
proof -
  from assms obtain h1 h2 where
    "scan_tags find_values line h = Inr h1" "normalize_endian h1 = Inr h2"
    "array_tags ops line h2 = Inr h'"
    by (auto simp: process_line_def bindE_Inr_iff)
  moreover from this have "h2 ''real_voxel_dim'' = h ''real_voxel_dim''"
    using scan_tags_other [of find_values line h h1 "''real_voxel_dim''"]
      normalize_endian_other [of h1 h2 "''real_voxel_dim''"]
    by (simp add: find_values_def)
  ultimately show ?thesis
    using array_tags_roi [of ops line h2 h'] by simp
qed

lemma read_header_roi:
  assumes "read_header ops ls h = Inr h'"
  shows "h' ''real_voxel_dim'' = h ''real_voxel_dim'' \<or> set_by_roi ops ls (h' ''real_voxel_dim'')"
  using assms
proof (induction ls arbitrary: h)
  case Nil
  then show ?case by simp
next
  case (Cons l ls)
  from Cons.prems obtain line where line: "decode l = Inr line"
    and body: "(case line of
          [] \<Rightarrow> Inl IndexError
        | c # _ \<Rightarrow>
            if c = 12 then Inr h
            else bindE (process_line ops h line) (\<lambda>h'. read_header ops ls h')) = Inr h'"
    by (auto simp: bindE_Inr_iff)
  show ?case
  proof (cases "\<exists>cs. line = 12 # cs")
    case True
    with body show ?thesis by auto
  next
    case False
    with body obtain h1 where h1: "process_line ops h line = Inr h1"
      and rest: "read_header ops ls h1 = Inr h'"
      by (auto simp: bindE_Inr_iff split: list.splits if_splits)
    from Cons.IH [OF rest] show ?thesis
    proof
      assume same: "h' ''real_voxel_dim'' = h1 ''real_voxel_dim''"
      from process_line_roi [OF h1] show ?thesis
      proof
        assume "h1 ''real_voxel_dim'' = h ''real_voxel_dim''"
        with same show ?thesis by simp
      next
        assume "0 < str_find line (u ''roi'') \<and>
          (\<exists>vs. mapE (py_float ops) (findall float_regex (rstrip line)) = Inr vs \<and>
             h1 ''real_voxel_dim'' =
               Some (Floats (map (\<lambda>v. fmul ops v (float_of_int ops 10)) vs)))"
        with same line have "set_by_roi ops (l # ls) (h' ''real_voxel_dim'')"
          unfolding set_by_roi_def by (metis list.set_intros(1))
        then show ?thesis ..
      qed
    next
      assume "set_by_roi ops ls (h' ''real_voxel_dim'')"
      then have "set_by_roi ops (l # ls) (h' ''real_voxel_dim'')"
        unfolding set_by_roi_def by (metis list.set_intros(2))
      then show ?thesis ..
    qed
  qed
qed

section \<open>Shapes of the arrays in \<^verbatim>\<open>read_file\<close>\<close>




lemma orient_Inr:
  assumes "orient data shape = Inr a"
  obtains r b c where
    "np_reshape (np_array data) (rev shape) = Inr r"
    "(if length shape \<noteq> 2 then np_transpose (np_squeeze r) [2, 1, 0] else Inr (np_squeeze r))
       = Inr b"
    "np_rot90 b 3 = Inr c" "np_flip c 1 = Inr a"
  using assms unfolding orient_def bindE_Inr_iff by blast

lemma read_data_Inr:
  assumes "read_data file fmt nb = Inr data"
  shows "nb * 4 \<le> int (length file) \<and>
    struct_unpack fmt (take (nat (nb * 4)) (drop (nat (int (length file) - nb * 4)) file))
      = Inr data"
  using assms by (auto simp: read_data_def Let_def split: if_splits)

lemma add_gradient_info_Arr:
  assumes "add_gradient_info ops procpar (Arr a) = Inr x"
  shows "x = Arr a"
  using assms
  by (auto simp: add_gradient_info_def bindE_Inr_iff split: option.splits if_splits)

lemma normalize_endian_Str:
  assumes "h ''endian'' = Some (Str e)"
  shows "normalize_endian h = Inr h"
  using assms by (simp add: normalize_endian_def)

section \<open>The matches of the unit pattern\<close>

lemma rmatch_unit:
  assumes "rmatch (atoms unit_regex) s = Some ps"
  shows "\<exists>a b rest. s = 34 # a # b # 34 # rest \<and> in_range CHR ''a'' CHR ''z'' a \<and>
           in_range CHR ''a'' CHR ''z'' b \<and> ps = [1, 1, 1, 1]"
  using assms
  by (auto simp: unit_regex_def chr_is_def split: list.splits if_splits)

lemma findall_unit:
  assumes "m \<in> set (findall unit_regex s)"
  shows "\<exists>a b. m = [34, a, b, 34] \<and> in_range CHR ''a'' CHR ''z'' a \<and>
           in_range CHR ''a'' CHR ''z'' b"
  using assms
proof (induction s rule: length_induct)
  case (1 s)
  show ?case
  proof (cases "s = []")
    case True
    with "1.prems" show ?thesis
      by (simp add: findall.simps)
  next
    case False
    show ?thesis
    proof (cases "rmatch (atoms unit_regex) s")
      case None
      with False "1.prems" have "m \<in> set (findall unit_regex (tl s))"
        by (subst (asm) findall.simps) simp
      moreover from False have "length (tl s) < length s"
        by (cases s) simp_all
      ultimately show ?thesis
        using "1.IH" by blast
    next
      case (Some ps)
      with False "1.prems" have
        "m = captured unit_regex ps s \<or>
         m \<in> set (findall unit_regex (drop (max 1 (sum_list ps)) s))"
        by (subst (asm) findall.simps) auto
      then show ?thesis
      proof
        assume "m = captured unit_regex ps s"
        with rmatch_unit [OF Some] show ?thesis
          by (auto simp: captured_def unit_regex_def)
      next
        assume "m \<in> set (findall unit_regex (drop (max 1 (sum_list ps)) s))"
        moreover from False have "length (drop (max 1 (sum_list ps)) s) < length s"
          by (cases s) simp_all
        ultimately show ?thesis
          using "1.IH" by blast
      qed
    qed
  qed
qed

lemma strip_quoted:
  assumes "in_range CHR ''a'' CHR ''z'' a" "in_range CHR ''a'' CHR ''z'' b"
  shows "strip_chr 34 [34, a, b, 34] = [a, b]"
  using assms by (auto simp: strip_chr_def in_range_def)

section \<open>The store during assembly\<close>




definition frame :: "nat \<Rightarrow> string set \<Rightarrow> 'f store \<Rightarrow> 'f store \<Rightarrow> bool" where
  \<comment> \<open>from \<open>st\<close> to \<open>st'\<close> nothing changed but keys of \<open>ks\<close> in the dictionary at \<open>a\<close>\<close>
  "frame a ks st st' \<longleftrightarrow>
     length st' = length st \<and> (\<forall>i. i \<noteq> a \<longrightarrow> st' ! i = st ! i) \<and>
     (\<forall>k. k \<notin> ks \<longrightarrow> (st' ! a) k = (st ! a) k)"

lemma frame_refl: "frame a ks st st"
  by (simp add: frame_def)

lemma frame_trans:
  assumes "frame a ks st st'" "frame a ks st' st''"
  shows "frame a ks st st''"
  using assms by (simp add: frame_def)

lemma frame_mono:
  assumes "frame a ks st st'" "ks \<subseteq> ks'"
  shows "frame a ks' st st'"
  using assms by (auto simp: frame_def)

lemma frame_setitem: "frame a {k} st (setitem st a k v)"
  by (cases "a < length st") (auto simp: frame_def setitem_def list_update_beyond)

lemma getitem_Inr: "getitem st a k = Inr v \<longleftrightarrow> (st ! a) k = Some v"
  by (auto simp: getitem_def split: option.splits)

lemma extend_voxel_dim_Inr:
  assumes "extend_voxel_dim st fh = Inr st'"
  shows "\<exists>shape vd. (st ! fh) ''shape'' = Some (Ints shape) \<and>
           (st ! fh) ''voxel_dim'' = Some (Nums vd) \<and>
           (if length shape \<noteq> length vd
            then \<exists>rvd. (st ! fh) ''real_voxel_dim'' = Some (Floats rvd) \<and>
                   st' = setitem st fh ''voxel_dim''
                           (Nums (vd @ map Flt (drop (length shape - 1) rvd)))
            else st' = st)"
proof -
  from assms obtain sv vv where
    sv: "(st ! fh) ''shape'' = Some sv" and vv: "(st ! fh) ''voxel_dim'' = Some vv"
    and body: "(case (sv, vv) of
          (Ints shape, Nums vd) \<Rightarrow>
            if length shape \<noteq> length vd then
              bindE (getitem st fh ''real_voxel_dim'') (\<lambda>rv.
                (case rv of
                   Floats rvd \<Rightarrow>
                     Inr (setitem st fh ''voxel_dim''
                            (Nums (vd @ map Flt (drop (length shape - 1) rvd))))
                 | _ \<Rightarrow> Inl TypeError))
            else Inr st
        | _ \<Rightarrow> Inl TypeError) = Inr st'"
    by (auto simp: extend_voxel_dim_def bindE_Inr_iff getitem_Inr)
  from body obtain shape vd where svv: "sv = Ints shape" "vv = Nums vd"
    by (cases sv; cases vv) simp_all
  show ?thesis
  proof (cases "length shape = length vd")
    case True
    with body svv sv vv show ?thesis by auto
  next
    case False
    show ?thesis
    proof (cases "(st ! fh) ''real_voxel_dim''")
      case None
      with body svv False show ?thesis
        by (simp add: bindE_def getitem_def)
    next
      case (Some rv)
      with body svv False sv vv show ?thesis
        by (cases rv) (simp_all add: bindE_def getitem_def)
    qed
  qed
qed

lemma extend_voxel_dim_frame:
  assumes "extend_voxel_dim st fh = Inr st'"
  shows "frame fh {''voxel_dim''} st st'"
  using extend_voxel_dim_Inr [OF assms]
  by (auto simp: frame_refl frame_setitem split: if_splits)

lemma append_voxel_dim_Inr:
  assumes "append_voxel_dim st fh x = Inr st'"
  shows "\<exists>vd. (st ! fh) ''voxel_dim'' = Some (Nums vd) \<and>
           st' = setitem st fh ''voxel_dim'' (Nums (vd @ [x]))"
proof -
  from assms obtain vv where vv: "(st ! fh) ''voxel_dim'' = Some vv"
    and body: "(case vv of
          Nums vd \<Rightarrow> Inr (setitem st fh ''voxel_dim'' (Nums (vd @ [x])))
        | _ \<Rightarrow> Inl TypeError) = Inr st'"
    by (auto simp: append_voxel_dim_def bindE_Inr_iff getitem_Inr)
  then show ?thesis
    by (cases vv) auto
qed

lemma append_voxel_dim_frame:
  assumes "append_voxel_dim st fh x = Inr st'"
  shows "frame fh {''voxel_dim''} st st'"
  using append_voxel_dim_Inr [OF assms] by (auto simp: frame_setitem)

lemma split_time_Inr:
  assumes "split_time ops all_data st fh time = Inr (vol, st')"
  shows "\<exists>s0 s1 s2 third vd.
           (st ! fh) ''shape'' = Some (Ints [s0, s1, s2]) \<and>
           float_round ops (truediv_int ops s2 time) = Inr third \<and>
           (setitem st fh ''shape'' (Ints [s0, s1, third, time]) ! fh) ''voxel_dim''
             = Some (Nums vd) \<and>
           st' = setitem (setitem st fh ''shape'' (Ints [s0, s1, third, time])) fh ''voxel_dim''
                   (Nums (vd @ [IntNum 1])) \<and>
           np_reshape all_data [s0, s1, third, time] = Inr vol"
proof -
  from assms obtain sv where sv: "(st ! fh) ''shape'' = Some sv"
    and body: "(case sv of
          Ints [s0, s1, s2] \<Rightarrow>
            bindE (float_round ops (truediv_int ops s2 time)) (\<lambda>third.
              (let shape = [s0, s1, third, time];
                   st1 = setitem st fh ''shape'' (Ints shape) in
               bindE (append_voxel_dim st1 fh (IntNum 1)) (\<lambda>st2.
               bindE (np_reshape all_data shape) (\<lambda>vol.
               Inr (vol, st2)))))
        | _ \<Rightarrow> Inl IndexError) = Inr (vol, st')"
    by (auto simp: split_time_def bindE_Inr_iff getitem_Inr)
  from body obtain shape where "sv = Ints shape"
    by (cases sv) simp_all
  with body obtain s0 s1 s2 where s: "sv = Ints [s0, s1, s2]"
    by (auto split: list.splits)
  with body obtain third where
    third: "float_round ops (truediv_int ops s2 time) = Inr third"
    and app: "append_voxel_dim (setitem st fh ''shape'' (Ints [s0, s1, third, time])) fh (IntNum 1)
        = Inr st'"
    and resh: "np_reshape all_data [s0, s1, third, time] = Inr vol"
    by (auto simp: bindE_Inr_iff Let_def)
  from append_voxel_dim_Inr [OF app] sv s third resh show ?thesis
    by auto
qed

lemma split_time_frame:
  assumes "split_time ops all_data st fh time = Inr (vol, st')"
  shows "frame fh {''shape'', ''voxel_dim''} st st'"
proof -
  from split_time_Inr [OF assms] obtain shape vd where
    "st' = setitem (setitem st fh ''shape'' (Ints shape)) fh ''voxel_dim'' (Nums vd)"
    by blast
  moreover have "frame fh {''shape'', ''voxel_dim''} st (setitem st fh ''shape'' (Ints shape))"
    by (rule frame_mono [OF frame_setitem]) simp
  moreover have "frame fh {''shape'', ''voxel_dim''} (setitem st fh ''shape'' (Ints shape))
      (setitem (setitem st fh ''shape'' (Ints shape)) fh ''voxel_dim'' (Nums vd))"
    by (rule frame_mono [OF frame_setitem]) simp
  ultimately show ?thesis
    by (auto intro: frame_trans)
qed

lemma assemble3_Inr:
  assumes "assemble3 ops stacked st fh = Inr (vol, st')"
  shows "\<exists>all_data st2 time.
           np_transpose stacked [1, 2, 0] = Inr all_data \<and>
           extend_voxel_dim (setitem st fh ''shape'' (Ints (map int (shp all_data)))) fh = Inr st2 \<and>
           declared_time ops st2 fh = Inr time \<and>
           (if 1 < time then split_time ops all_data st2 fh time = Inr (vol, st')
            else vol = all_data \<and> st' = st2)"
  using assms
  by (auto simp: assemble3_def bindE_Inr_iff Let_def split: if_splits)

lemma assemble3_frame:
  assumes "assemble3 ops stacked st fh = Inr (vol, st')"
  shows "frame fh {''shape'', ''voxel_dim''} st st'"
proof -
  from assemble3_Inr [OF assms] obtain all_data st2 time where
    e: "extend_voxel_dim (setitem st fh ''shape'' (Ints (map int (shp all_data)))) fh = Inr st2"
    and t: "if 1 < time then split_time ops all_data st2 fh time = Inr (vol, st')
            else vol = all_data \<and> st' = st2"
    by blast
  have "frame fh {''shape'', ''voxel_dim''} st
      (setitem st fh ''shape'' (Ints (map int (shp all_data))))"
    by (rule frame_mono [OF frame_setitem]) simp
  moreover from e have "frame fh {''shape'', ''voxel_dim''}
      (setitem st fh ''shape'' (Ints (map int (shp all_data)))) st2"
    by (rule frame_mono [OF extend_voxel_dim_frame]) simp
  moreover from t have "frame fh {''shape'', ''voxel_dim''} st2 st'"
    by (auto simp: frame_refl split_time_frame split: if_splits)
  ultimately show ?thesis
    by (blast intro: frame_trans)
qed

lemma assemble4_frame:
  assumes "assemble4 ops stacked st fh = Inr (vol, st')"
  shows "frame fh {''shape'', ''voxel_dim''} st st'"
proof -
  from assms have
    "append_voxel_dim (setitem st fh ''shape'' (Ints (map int (shp vol)))) fh
       (Flt (float_of_int ops 1)) = Inr st'"
    by (auto simp: assemble4_def bindE_Inr_iff Let_def)
  then have "frame fh {''shape'', ''voxel_dim''}
      (setitem st fh ''shape'' (Ints (map int (shp vol)))) st'"
    by (rule frame_mono [OF append_voxel_dim_frame]) simp
  moreover have "frame fh {''shape'', ''voxel_dim''} st
      (setitem st fh ''shape'' (Ints (map int (shp vol))))"
    by (rule frame_mono [OF frame_setitem]) simp
  ultimately show ?thesis
    by (blast intro: frame_trans)
qed

lemma read_directory_Some:
  assumes "read_directory ops files = Inr (Some v)"
  shows "\<exists>slices stacked.
           mapE (read_file ops) files = Inr slices \<and> slices \<noteq> [] \<and>
           np_stack (map snd slices) = Inr stacked \<and>
           (if length (shp stacked) < 4 then assemble3 ops stacked (map fst slices) 0
            else assemble4 ops stacked (map fst slices) 0) = Inr (vol_data v, headers v) \<and>
           final_header v = 0"
proof -
  from assms obtain slices all_headers all_data where
    s: "mapE (read_file ops) files = Inr slices"
    and un: "unpack_pairs slices = Inr (all_headers, all_data)"
    and body: "(if all_headers = [] then Inr None
        else
          (let final_header = 0 in
           bindE (np_stack all_data) (\<lambda>stacked.
           bindE (if length (shp stacked) < 4
                  then assemble3 ops stacked all_headers final_header
                  else assemble4 ops stacked all_headers final_header) (\<lambda>(vol, st).
           Inr (Some \<lparr>vol_data = vol, final_header = final_header, headers = st\<rparr>)))))
       = Inr (Some v)"
    by (auto simp: read_directory_def bindE_Inr_iff)
  from un have ne: "slices \<noteq> []" and eq: "all_headers = map fst slices" "all_data = map snd slices"
    by (auto simp: unpack_pairs_def split: if_splits)
  with body obtain stacked vol st where
    "np_stack (map snd slices) = Inr stacked"
    "(if length (shp stacked) < 4 then assemble3 ops stacked (map fst slices) 0
      else assemble4 ops stacked (map fst slices) 0) = Inr (vol, st)"
    "v = \<lparr>vol_data = vol, final_header = 0, headers = st\<rparr>"
    by (auto simp: Let_def bindE_Inr_iff split: if_splits)
  with s ne show ?thesis
    by auto
qed

section \<open>Shapes during assembly\<close>











section \<open>What the orientation does to a matrix\<close>

text \<open>
  For a declared shape of two entries the rotation undoes itself against the reversal of
  the second axis up to the exchange of the two axes: the array that \<^verbatim>\<open>read_file\<close>
  returns for a matrix line \<^verbatim>\<open>{m0, m1}\<close> has the shape (m0, m1), and its entry at
  (i, j) is the float number \<open>j * m0 + i\<close> of the data.
\<close>

lemma index_bound:
  fixes i j P Q :: nat
  assumes "i < P" "j < Q"
  shows "i * Q + j < P * Q"
proof -
  from assms have "i * Q + j < i * Q + Q" by simp
  also have "\<dots> = Suc i * Q" by simp
  also from assms have "\<dots> \<le> P * Q"
    by (intro mult_le_mono1) simp
  finally show ?thesis .
qed

lemma transpose_2d:
  assumes "shp b = [Q, P]"
  shows "np_transpose b [1, 0] =
    Inr \<lparr>shp = [P, Q], elems = map (\<lambda>n. elems b ! (n mod Q * P + n div Q)) [0..<P * Q]\<rparr>"
  using assms by (simp add: np_transpose_def index_of_def upt_conv_Cons Let_def)

lemma flip_2d:
  assumes "shp t = [P, Q]"
  shows "np_flip t 1 =
    Inr \<lparr>shp = [P, Q],
         elems = map (\<lambda>n. elems t ! (n div Q * Q + (Q - 1 - n mod Q))) [0..<P * Q]\<rparr>"
  using assms by (simp add: np_flip_def Let_def)

lemma flip_flip_2d:
  assumes "shp t = [P, Q]" "length (elems t) = P * Q"
    and "np_flip t 1 = Inr c" "np_flip c 1 = Inr a"
  shows "a = t"
proof -
  have c: "c = \<lparr>shp = [P, Q],
      elems = map (\<lambda>n. elems t ! (n div Q * Q + (Q - 1 - n mod Q))) [0..<P * Q]\<rparr>"
    using flip_2d [OF assms(1)] assms(3) by simp
  then have "shp c = [P, Q]" by simp
  from flip_2d [OF this] assms(4) have a: "a = \<lparr>shp = [P, Q],
      elems = map (\<lambda>n. elems c ! (n div Q * Q + (Q - 1 - n mod Q))) [0..<P * Q]\<rparr>"
    by simp
  have "elems a = elems t"
  proof (rule nth_equalityI)
    show "length (elems a) = length (elems t)"
      using a assms(2) by simp
    fix n assume "n < length (elems a)"
    with a have n: "n < P * Q" by simp
    then have Q: "0 < Q" by (cases Q) simp_all
    from n have d: "n div Q < P"
      by (simp add: less_mult_imp_div_less)
    from Q have m: "Q - 1 - n mod Q < Q" by simp
    define n' where "n' = n div Q * Q + (Q - 1 - n mod Q)"
    from d m have n': "n' < P * Q"
      unfolding n'_def by (rule index_bound)
    from m have dm: "n' div Q = n div Q" "n' mod Q = Q - 1 - n mod Q"
      by (simp_all add: n'_def)
    from Q have "n mod Q < Q" by simp
    then have inv: "Q - 1 - (Q - 1 - n mod Q) = n mod Q"
      by arith
    from a n have "elems a ! n = elems c ! n'"
      by (simp add: n'_def)
    also from c n' have "\<dots> = elems t ! (n' div Q * Q + (Q - 1 - n' mod Q))"
      by simp
    also from dm inv have "\<dots> = elems t ! n"
      by (simp add: div_mult_mod_eq)
    finally show "elems a ! n = elems t ! n" .
  qed
  with a assms(1) show ?thesis by simp
qed


lemma int_digits_nonneg:
  assumes "int_digits ops cs acc = Inr n"
  shows "0 \<le> n"
  using assms by (induction cs arbitrary: acc) (auto split: option.splits)

lemma py_int_nonneg:
  assumes "py_int ops s = Inr n"
  shows "0 \<le> n"
  using assms int_digits_nonneg [of ops s 0 n] by (simp add: py_int_def split: if_splits)

lemma mapE_set:
  assumes "mapE f xs = Inr ys" "y \<in> set ys"
  shows "\<exists>x. f x = Inr y"
  using assms by (induction xs arbitrary: ys) (auto split: sum.splits)

definition from_matrix :: "'f pyval option \<Rightarrow> bool" where
  \<comment> \<open>a shape that a matrix line has set: its entries are not negative\<close>
  "from_matrix v \<longleftrightarrow> (\<exists>s. v = Some (Ints s) \<and> list_all (\<lambda>d. 0 \<le> d) s)"

lemma array_tags_shape:
  assumes "array_tags ops line h = Inr h'"
  shows "h' ''shape'' = h ''shape'' \<or> from_matrix (h' ''shape'')"
proof (cases "0 < str_find line (u ''abscissa'') \<or> 0 < str_find line (u ''roi'') \<or>
    0 < str_find line (u ''orientation'') \<or> 0 < str_find line (u ''origin'')")
  case True
  with assms show ?thesis
    by (auto simp: array_tags_def bindE_Inr_iff split: list.splits if_splits)
next
  case other: False
  show ?thesis
  proof (cases "0 < str_find line (u ''matrix'')")
    case True
    with other assms obtain vs where
      vs: "mapE (py_int ops) (findall (digit_regex ops) (rstrip line)) = Inr vs"
      and h': "h' = h(''shape'' \<mapsto> Ints vs)"
      by (auto simp: array_tags_def bindE_Inr_iff)
    from vs have "list_all (\<lambda>d. 0 \<le> d) vs"
      using mapE_set [OF vs] py_int_nonneg [of ops] by (auto simp: list_all_iff)
    with h' show ?thesis
      by (simp add: from_matrix_def)
  next
    case False
    with other assms show ?thesis
      by (simp add: array_tags_def)
  qed
qed

lemma process_line_shape:
  assumes "process_line ops h line = Inr h'"
  shows "h' ''shape'' = h ''shape'' \<or> from_matrix (h' ''shape'')"
proof -
  from assms obtain h1 h2 where
    "scan_tags find_values line h = Inr h1" "normalize_endian h1 = Inr h2"
    "array_tags ops line h2 = Inr h'"
    by (auto simp: process_line_def bindE_Inr_iff)
  moreover from this have "h2 ''shape'' = h ''shape''"
    using scan_tags_other [of find_values line h h1 "''shape''"]
      normalize_endian_other [of h1 h2 "''shape''"]
    by (simp add: find_values_def)
  ultimately show ?thesis
    using array_tags_shape [of ops line h2 h'] by simp
qed

lemma read_header_shape:
  assumes "read_header ops ls h = Inr h'"
  shows "h' ''shape'' = h ''shape'' \<or> from_matrix (h' ''shape'')"
  using assms
proof (induction ls arbitrary: h)
  case Nil
  then show ?case by simp
next
  case (Cons l ls)
  from Cons.prems obtain line where
    body: "(case line of
          [] \<Rightarrow> Inl IndexError
        | c # _ \<Rightarrow>
            if c = 12 then Inr h
            else bindE (process_line ops h line) (\<lambda>h'. read_header ops ls h')) = Inr h'"
    by (auto simp: bindE_Inr_iff)
  show ?case
  proof (cases "\<exists>cs. line = 12 # cs")
    case True
    with body show ?thesis by auto
  next
    case False
    with body obtain h1 where h1: "process_line ops h line = Inr h1"
      and rest: "read_header ops ls h1 = Inr h'"
      by (auto simp: bindE_Inr_iff split: list.splits if_splits)
    from Cons.IH [OF rest] process_line_shape [OF h1] show ?thesis
      by auto
  qed
qed

theorem matrix_is_read_column_major:
  assumes "read_file ops file = Inr (h, a)" and "h ''shape'' = Some (Ints [m0, m1])"
  shows "\<exists>fmt data.
           h ''fmt'' = Some (Str fmt) \<and> read_data file fmt (m0 * m1) = Inr data \<and>
           0 \<le> m0 \<and> 0 \<le> m1 \<and> length data = nat m0 * nat m1 \<and>
           shp a = [nat m0, nat m1] \<and>
           (\<forall>i j. i < nat m0 \<longrightarrow> j < nat m1 \<longrightarrow>
              elems a ! (i * nat m1 + j) = data ! (j * nat m0 + i))"
proof -
  from assms(1) obtain h0 shape fmt data rvd where
    h0: "read_header ops (split_lines file) initial_header = Inr h0"
    and sh: "h0 ''shape'' = Some (Ints shape)"
    and data: "read_data file fmt (prod_list shape) = Inr data"
    and h: "h = h0(''fmt'' \<mapsto> Str fmt, ''voxel_dim'' \<mapsto> Nums (voxel_dims ops shape rvd))"
    and o: "orient data shape = Inr a"
    by (rule read_file_Inr)
  from sh h assms(2) have shape: "shape = [m0, m1]"
    by simp
  from read_header_shape [OF h0] sh shape have nonneg: "0 \<le> m0" "0 \<le> m1"
    by (auto simp: initial_header_def from_matrix_def)
  define P Q where "P = nat m0" and "Q = nat m1"
  from o shape obtain r c where
    r: "np_reshape (np_array data) [m1, m0] = Inr r"
    and c: "np_rot90 (np_squeeze r) 3 = Inr c" "np_flip c 1 = Inr a"
    by (auto elim!: orient_Inr)
  from r nonneg have r': "r = \<lparr>shp = [Q, P], elems = data\<rparr>"
    and len: "int (length data) = m1 * m0"
    by (auto simp: np_reshape_def np_array_def Let_def P_def Q_def split: if_splits)
  from len have "nat (int (length data)) = nat (m0 * m1)"
    by (simp add: mult.commute)
  with nonneg have len': "length data = P * Q"
    by (simp add: P_def Q_def nat_mult_distrib)
  from c(1) have "2 \<le> length (shp (np_squeeze r))"
    by (auto simp: np_rot90_def split: if_splits)
  with r' have sq: "np_squeeze r = r"
    by (auto simp: np_squeeze_def split: if_splits)
  from r' have shp_r: "shp r = [Q, P]" "elems r = data"
    by simp_all
  define t where "t = \<lparr>shp = [P, Q],
      elems = map (\<lambda>n. elems r ! (n mod Q * P + n div Q)) [0..<P * Q]\<rparr>"
  from transpose_2d [OF shp_r(1)] have tr: "np_transpose r [1, 0] = Inr t"
    by (simp add: t_def)
  from c(1) sq shp_r tr have fl: "np_flip t 1 = Inr c"
    by (auto simp: np_rot90_def Let_def bindE_Inr_iff split: if_splits)
  have "shp t = [P, Q]" "length (elems t) = P * Q"
    by (simp_all add: t_def)
  from flip_flip_2d [OF this fl c(2)] have a: "a = t" .
  have "\<forall>i j. i < P \<longrightarrow> j < Q \<longrightarrow> elems a ! (i * Q + j) = data ! (j * P + i)"
  proof (intro allI impI)
    fix i j assume ij: "i < P" "j < Q"
    then have "i * Q + j < P * Q"
      by (rule index_bound)
    with a ij shp_r show "elems a ! (i * Q + j) = data ! (j * P + i)"
      by (simp add: t_def)
  qed
  moreover from a have "shp a = [P, Q]"
    by (simp add: t_def)
  moreover from h have "h ''fmt'' = Some (Str fmt)"
    by simp
  moreover from data shape have "read_data file fmt (m0 * m1) = Inr data"
    by simp
  ultimately show ?thesis
    using nonneg len' unfolding P_def Q_def by blast
qed

section \<open>The claims\<close>

text \<open>
  \<^bold>\<open>C1.\<close>  A header that declares \<^verbatim>\<open>int bigendian = 0;\<close> should give the
  little-endian marker and a format that starts with \<^verbatim>\<open><\<close>.  The reader stores the
  text \<^verbatim>\<open>'0'\<close> that the regular expression captured; the test of line 134 is for the
  type \<^verbatim>\<open>int\<close>, which a captured text never has, so nothing is normalized, and
  \<^verbatim>\<open>'<'\<close> is not in \<^verbatim>\<open>'0'\<close>: on the example of the specification the format is
  \<^verbatim>\<open>>16f\<close> and the little-endian floats are read as big-endian patterns.
\<close>

theorem bigendian_zero_is_read_big_endian:
  "header_fields [''endian'', ''fmt''] (read_file exact spec_example) =
   Inr ([Some (Str (u ''0'')), Some (Str (u ''>16f''))],
        \<lparr>shp = [4, 4],
         elems = [0x00000000, 0x00008040, 0x00000041, 0x00004041, 0x0000803F,
                  0x0000A040, 0x00001041, 0x00005041, 0x00000040, 0x0000C040,
                  0x00002041, 0x00006041, 0x00004040, 0x0000E040, 0x00003041,
                  0x00007041]\<rparr>)"
proof -
  from spec_example_read obtain h a where
    "read_file exact spec_example = Inr (h, a)"
    "h ''endian'' = Some (Str (u ''0''))" "h ''fmt'' = Some (Str (u ''>16f''))"
    "a = \<lparr>shp = [4, 4],
         elems = [0x00000000, 0x00008040, 0x00000041, 0x00004041, 0x0000803F,
                  0x0000A040, 0x00001041, 0x00005041, 0x00000040, 0x0000C040,
                  0x00002041, 0x00006041, 0x00004040, 0x0000E040, 0x00003041,
                  0x00007041]\<rparr>"
    by (rule header_fields_Inr) simp
  then show ?thesis
    by (simp add: header_fields_def)
qed

text \<open>
  \<^bold>\<open>C2.\<close>  For a path that is not a directory, \<^verbatim>\<open>load_fdf\<close> should return the
  array first and the header second.  \<^verbatim>\<open>read_file\<close> returns the header first, and
  \<^verbatim>\<open>load_fdf\<close> binds the pair to the names \<^verbatim>\<open>data, header\<close> in the other order:
  whenever it returns for a single file, its first component is the header dictionary and
  its second the array.
\<close>

theorem load_fdf_single_file_returns_header_first:
  assumes "load_fdf ops (RegularFile file) procpar = Inr (first, second)"
  shows "\<exists>h a. read_file ops file = Inr (h, a) \<and> first = Hdr h \<and> second = Arr a"
proof -
  from assms obtain h a where r: "read_file ops file = Inr (h, a)"
    and g: "(case procpar of
               Some lines \<Rightarrow>
                 bindE (add_gradient_info ops lines (Arr a)) (\<lambda>header'. Inr (Hdr h, header'))
             | None \<Rightarrow> Inr (Hdr h, Arr a)) = Inr (first, second)"
    by (auto simp: load_fdf_def bindE_Inr_iff)
  show ?thesis
  proof (cases procpar)
    case None
    with r g show ?thesis by simp
  next
    case (Some lines)
    with g obtain x where "add_gradient_info ops lines (Arr a) = Inr x"
      "first = Hdr h" "second = x"
      by (auto simp: bindE_Inr_iff)
    with r add_gradient_info_Arr [of ops lines a x] show ?thesis by simp
  qed
qed

theorem load_fdf_single_file_returns_header_first_witness:
  "\<exists>h a. load_fdf exact (RegularFile spec_example) None = Inr (Hdr h, Arr a) \<and>
     read_file exact spec_example = Inr (h, a) \<and> h ''shape'' = Some (Ints [4, 4]) \<and>
     shp a = [4, 4]"
proof -
  from spec_example_read obtain h a where
    r: "read_file exact spec_example = Inr (h, a)"
    and f: "h ''shape'' = Some (Ints [4, 4])" "shp a = [4, 4]"
    by (rule header_fields_Inr) simp
  then have l: "load_fdf exact (RegularFile spec_example) None = Inr (Hdr h, Arr a)"
    by (simp add: load_fdf_def bindE_def)
  from load_fdf_single_file_returns_header_first [OF l] r f l show ?thesis
    by blast
qed

text \<open>
  \<^bold>\<open>C3.\<close>  The specification says that a file whose payload, the bytes after the form feed, is not
  \<open>4 * product(shape)\<close> bytes long is never read; the read fails.  It does not hold:
  the reader never looks at where the form feed is.  \<open>truncated_file\<close> declares a 2 by 2
  matrix and has 12 bytes after its form feed; the read returns, and the first float is
  made of the last bytes of the header, \<^verbatim>\<open>};\<close>, the newline and the form feed.
\<close>

theorem payload_mismatch_counterexample:
  "map_option length (payload truncated_file) = Some 12 \<and>
   header_fields [''shape'', ''fmt''] (read_file exact truncated_file) =
   Inr ([Some (Ints [2, 2]), Some (Str (u ''>4f''))],
        \<lparr>shp = [2, 2], elems = [0x7D3B0A0C, 0x00004040, 0x00000040, 0x00000040]\<rparr>)"
  using truncated_file_read
  by (simp add: payload_def truncated_file_def)

text \<open>
  \<^bold>\<open>C3, amended.\<close>  The read fails when the whole file is shorter than
  \<open>4 * product(shape)\<close> bytes, and a read that returns has unpacked exactly the last
  \<open>4 * product(shape)\<close> bytes of the file, whatever stands there.
\<close>

theorem decoder_reads_the_tail_of_the_file:
  "(read_file ops file = Inr (h, a) \<longrightarrow>
      (\<exists>shape fmt data.
         h ''shape'' = Some (Ints shape) \<and> h ''fmt'' = Some (Str fmt) \<and>
         4 * prod_list shape \<le> int (length file) \<and>
         struct_unpack fmt
           (take (nat (4 * prod_list shape))
              (drop (nat (int (length file) - 4 * prod_list shape)) file)) = Inr data \<and>
         orient data shape = Inr a)) \<and>
   (read_header ops (split_lines file) initial_header = Inr h0 \<longrightarrow>
    h0 ''shape'' = Some (Ints shape0) \<longrightarrow>
    int (length file) < 4 * prod_list shape0 \<longrightarrow>
      (\<exists>e. read_file ops file = Inl e))"
proof (intro conjI impI)
  assume "read_file ops file = Inr (h, a)"
  then obtain h1 shape fmt data rvd where
    sh: "h1 ''shape'' = Some (Ints shape)"
    and data: "read_data file fmt (prod_list shape) = Inr data"
    and h: "h = h1(''fmt'' \<mapsto> Str fmt, ''voxel_dim'' \<mapsto> Nums (voxel_dims ops shape rvd))"
    and o: "orient data shape = Inr a"
    by (rule read_file_Inr)
  from read_data_Inr [OF data] have "4 * prod_list shape \<le> int (length file)"
    "struct_unpack fmt
       (take (nat (4 * prod_list shape))
          (drop (nat (int (length file) - 4 * prod_list shape)) file)) = Inr data"
    by (simp_all add: mult.commute)
  moreover from sh h have "h ''shape'' = Some (Ints shape)" "h ''fmt'' = Some (Str fmt)"
    by simp_all
  ultimately show "\<exists>shape fmt data.
         h ''shape'' = Some (Ints shape) \<and> h ''fmt'' = Some (Str fmt) \<and>
         4 * prod_list shape \<le> int (length file) \<and>
         struct_unpack fmt
           (take (nat (4 * prod_list shape))
              (drop (nat (int (length file) - 4 * prod_list shape)) file)) = Inr data \<and>
         orient data shape = Inr a"
    using o by blast
next
  assume h0: "read_header ops (split_lines file) initial_header = Inr h0"
    and sh: "h0 ''shape'' = Some (Ints shape0)"
    and short: "int (length file) < 4 * prod_list shape0"
  show "\<exists>e. read_file ops file = Inl e"
  proof (cases "read_file ops file")
    case (Inl e)
    then show ?thesis by blast
  next
    case (Inr p)
    then obtain h a where "read_file ops file = Inr (h, a)"
      by (cases p) simp
    then obtain h1 shape fmt data where
      "read_header ops (split_lines file) initial_header = Inr h1"
      "h1 ''shape'' = Some (Ints shape)"
      "read_data file fmt (prod_list shape) = Inr data"
      by (rule read_file_Inr)
    with h0 sh have "read_data file fmt (prod_list shape0) = Inr data"
      by simp
    from read_data_Inr [OF this] short show ?thesis
      by simp
  qed
qed

theorem decoder_reads_the_tail_of_the_file_witness:
  "(\<exists>h a data. read_file exact truncated_file = Inr (h, a) \<and>
      h ''shape'' = Some (Ints [2, 2]) \<and> h ''fmt'' = Some (Str (u ''>4f'')) \<and>
      struct_unpack (u ''>4f'') (drop (length truncated_file - 16) truncated_file) = Inr data \<and>
      orient data [2, 2] = Inr a) \<and>
   (\<exists>h0 e. read_header exact (split_lines header_only) initial_header = Inr h0 \<and>
      h0 ''shape'' = Some (Ints [4, 4]) \<and> length header_only < 64 \<and>
      read_file exact header_only = Inl e)"
proof
  from truncated_file_read obtain h a where
    r: "read_file exact truncated_file = Inr (h, a)"
    and f: "h ''shape'' = Some (Ints [2, 2])" "h ''fmt'' = Some (Str (u ''>4f''))"
    by (rule header_fields_Inr) simp
  from decoder_reads_the_tail_of_the_file [of exact truncated_file h a] r f
  obtain data where
    "struct_unpack (u ''>4f'')
       (take (nat 16) (drop (nat (int (length truncated_file) - 16)) truncated_file)) = Inr data"
    "orient data [2, 2] = Inr a"
    by auto
  moreover have "take (nat 16) (drop (nat (int (length truncated_file) - 16)) truncated_file)
      = drop (length truncated_file - 16) truncated_file"
    by (simp add: truncated_file_def)
  ultimately show "\<exists>h a data. read_file exact truncated_file = Inr (h, a) \<and>
      h ''shape'' = Some (Ints [2, 2]) \<and> h ''fmt'' = Some (Str (u ''>4f'')) \<and>
      struct_unpack (u ''>4f'') (drop (length truncated_file - 16) truncated_file) = Inr data \<and>
      orient data [2, 2] = Inr a"
    using r f by auto
next
  from header_only_header obtain h0 where
    h0: "read_header exact (split_lines header_only) initial_header = Inr h0"
    and sh: "h0 ''shape'' = Some (Ints [4, 4])"
    by (cases "read_header exact (split_lines header_only) initial_header") auto
  have len: "length header_only < 64"
    by (simp add: header_only_def fdf_def)
  with decoder_reads_the_tail_of_the_file [of exact header_only _ _ h0 "[4, 4]"] h0 sh
  obtain e where "read_file exact header_only = Inl e"
    by auto
  with h0 sh len show "\<exists>h0 e. read_header exact (split_lines header_only) initial_header = Inr h0 \<and>
      h0 ''shape'' = Some (Ints [4, 4]) \<and> length header_only < 64 \<and>
      read_file exact header_only = Inl e"
    by blast
qed

text \<open>
  \<^bold>\<open>C4.\<close>  Given no input file the directory assembler fails: the assignment of
  \<^verbatim>\<open>zip()\<close> to two names raises \<^verbatim>\<open>ValueError\<close> before the test of line 227 is
  reached.  For no list of files does it return \<^verbatim>\<open>None\<close> or another empty result.
\<close>

theorem read_directory_empty_fails:
  "read_directory ops [] = Inl ValueError \<and> read_directory ops files \<noteq> Inr None"
proof
  show "read_directory ops [] = Inl ValueError"
    by (simp add: read_directory_def unpack_pairs_def bindE_def)
  show "read_directory ops files \<noteq> Inr None"
  proof
    assume "read_directory ops files = Inr None"
    then obtain slices all_headers all_data where
      "unpack_pairs slices = Inr (all_headers, all_data)"
      "(if all_headers = [] then Inr None
        else
          (let final_header = 0 in
           bindE (np_stack all_data) (\<lambda>stacked.
           bindE (if length (shp stacked) < 4
                  then assemble3 ops stacked all_headers final_header
                  else assemble4 ops stacked all_headers final_header) (\<lambda>(vol, st).
           Inr (Some \<lparr>vol_data = vol, final_header = final_header, headers = st\<rparr>)))))
       = Inr None"
      by (auto simp: read_directory_def bindE_Inr_iff)
    then show False
      by (auto simp: unpack_pairs_def Let_def bindE_Inr_iff split: if_splits)
  qed
qed






text \<open>
  \<^bold>\<open>C7.\<close>  The extents of the region-of-interest line are multiplied by 10 to form
  \<^verbatim>\<open>real_voxel_dim\<close>, and \<^verbatim>\<open>voxel_dim[i] = real_voxel_dim[i] / shape[i]\<close>: after a
  successful read, \<^verbatim>\<open>real_voxel_dim\<close> holds ten times the numbers that
  \<^verbatim>\<open>float_regex\<close> finds in a line of the file with \<^verbatim>\<open>roi\<close> after its first column,
  and the entries of \<^verbatim>\<open>voxel_dim\<close> are the quotients.  The extents 1.0, 1.0, 0.1 and
  the shape 4, 4 give 2.5, 2.5.
\<close>

theorem voxel_dim_is_roi_times_ten_over_shape:
  assumes "read_file ops file = Inr (h, a)"
  shows "\<exists>shape rvd vd l line vs.
           h ''shape'' = Some (Ints shape) \<and> h ''real_voxel_dim'' = Some (Floats rvd) \<and>
           h ''voxel_dim'' = Some (Nums vd) \<and>
           l \<in> set (split_lines file) \<and> decode l = Inr line \<and> 0 < str_find line (u ''roi'') \<and>
           mapE (py_float ops) (findall float_regex (rstrip line)) = Inr vs \<and>
           rvd = map (\<lambda>v. fmul ops v (float_of_int ops 10)) vs \<and>
           length vd = min (length shape) (length rvd) \<and>
           (\<forall>i. i < length vd \<longrightarrow>
              vd ! i = Flt (fdiv ops (rvd ! i) (float_of_int ops (shape ! i))))"
proof -
  from assms obtain h0 shape fmt data rvd where
    h0: "read_header ops (split_lines file) initial_header = Inr h0"
    and sh: "h0 ''shape'' = Some (Ints shape)"
    and rv: "h0 ''real_voxel_dim'' = Some (Floats rvd)"
    and h: "h = h0(''fmt'' \<mapsto> Str fmt, ''voxel_dim'' \<mapsto> Nums (voxel_dims ops shape rvd))"
    by (rule read_file_Inr)
  have "(initial_header :: 'a header) ''real_voxel_dim'' = None"
    by (simp add: initial_header_def)
  with read_header_roi [OF h0] rv obtain l line vs where
    "l \<in> set (split_lines file)" "decode l = Inr line" "0 < str_find line (u ''roi'')"
    "mapE (py_float ops) (findall float_regex (rstrip line)) = Inr vs"
    "rvd = map (\<lambda>v. fmul ops v (float_of_int ops 10)) vs"
    by (auto simp: set_by_roi_def)
  moreover have "\<forall>i. i < length (voxel_dims ops shape rvd) \<longrightarrow>
      voxel_dims ops shape rvd ! i = Flt (fdiv ops (rvd ! i) (float_of_int ops (shape ! i)))"
    by (simp add: voxel_dims_def)
  moreover have "length (voxel_dims ops shape rvd) = min (length shape) (length rvd)"
    by (simp add: voxel_dims_def)
  moreover from sh rv h have "h ''shape'' = Some (Ints shape)"
    "h ''real_voxel_dim'' = Some (Floats rvd)"
    "h ''voxel_dim'' = Some (Nums (voxel_dims ops shape rvd))"
    by simp_all
  ultimately show ?thesis by blast
qed

theorem voxel_dim_is_roi_times_ten_over_shape_witness:
  "\<exists>h a. read_file exact spec_example = Inr (h, a) \<and>
     h ''shape'' = Some (Ints [4, 4]) \<and> h ''real_voxel_dim'' = Some (Floats [10, 10, 1]) \<and>
     h ''voxel_dim'' = Some (Nums [Flt (5 / 2), Flt (5 / 2)]) \<and>
     (\<exists>vd. h ''voxel_dim'' = Some (Nums vd) \<and> vd ! 0 = Flt (fdiv exact 10 (float_of_int exact 4))
        \<and> vd ! 1 = Flt (fdiv exact 10 (float_of_int exact 4)))"
proof -
  from spec_example_read obtain h a where
    r: "read_file exact spec_example = Inr (h, a)"
    and f: "h ''shape'' = Some (Ints [4, 4])" "h ''real_voxel_dim'' = Some (Floats [10, 10, 1])"
      "h ''voxel_dim'' = Some (Nums [Flt (5 / 2), Flt (5 / 2)])"
    by (rule header_fields_Inr) simp
  from voxel_dim_is_roi_times_ten_over_shape [OF r] f obtain vd where
    vd: "h ''voxel_dim'' = Some (Nums vd)"
    and q: "\<forall>i. i < length vd \<longrightarrow>
      vd ! i = Flt (fdiv exact ([10, 10, 1] ! i) (float_of_int exact ([4, 4] ! i)))"
    by auto
  from vd f have "length vd = 2" by auto
  with q have "vd ! 0 = Flt (fdiv exact 10 (float_of_int exact 4))"
    "vd ! 1 = Flt (fdiv exact 10 (float_of_int exact 4))"
    by auto
  with r f vd show ?thesis by blast
qed

text \<open>
  \<^bold>\<open>C8.\<close>  Unit normalization at parse time is total and idempotent.  The token
  \<^verbatim>\<open>cm\<close> becomes \<^verbatim>\<open>mm\<close>, every other token is kept, and normalizing twice is
  normalizing once.  Whenever the loop body accepts a line with \<^verbatim>\<open>abscissa\<close> after
  its first column, the first match of the unit pattern in the line is a quoted pair of
  lower-case letters, \<^verbatim>\<open>xyz_units\<close> is that pair normalized, and \<^verbatim>\<open>t_units\<close> is
  \<^verbatim>\<open>unknown\<close>.
\<close>

theorem unit_normalization:
  "normalize_unit (u ''cm'') = u ''mm'' \<and>
   (unit \<noteq> u ''cm'' \<longrightarrow> normalize_unit unit = unit) \<and>
   normalize_unit (normalize_unit unit) = normalize_unit unit \<and>
   (0 < str_find line (u ''abscissa'') \<longrightarrow> process_line ops h line = Inr h' \<longrightarrow>
      (\<exists>a b ms. findall unit_regex (rstrip line) = [34, a, b, 34] # ms \<and>
         in_range CHR ''a'' CHR ''z'' a \<and> in_range CHR ''a'' CHR ''z'' b \<and>
         h' ''xyz_units'' = Some (Str (normalize_unit [a, b])) \<and>
         h' ''t_units'' = Some (Str (u ''unknown''))))"
proof (intro conjI impI)
  show "normalize_unit (u ''cm'') = u ''mm''"
    by (simp add: normalize_unit_def)
  show "normalize_unit unit = unit" if "unit \<noteq> u ''cm''"
    using that by (simp add: normalize_unit_def)
  have "u ''mm'' \<noteq> u ''cm''"
    by (simp add: u_def)
  then show "normalize_unit (normalize_unit unit) = normalize_unit unit"
    by (simp add: normalize_unit_def)
next
  assume tag: "0 < str_find line (u ''abscissa'')"
    and ok: "process_line ops h line = Inr h'"
  from ok obtain h2 where "array_tags ops line h2 = Inr h'"
    by (auto simp: process_line_def bindE_Inr_iff)
  with tag obtain m0 ms where
    m: "findall unit_regex (rstrip line) = m0 # ms"
    and h': "h' = h2(''xyz_units'' \<mapsto> Str (normalize_unit (strip_chr 34 m0)),
                     ''t_units'' \<mapsto> Str (u ''unknown''))"
    by (auto simp: array_tags_def split: list.splits)
  from m have "m0 \<in> set (findall unit_regex (rstrip line))"
    by simp
  then obtain a b where
    ab: "m0 = [34, a, b, 34]" "in_range CHR ''a'' CHR ''z'' a" "in_range CHR ''a'' CHR ''z'' b"
    using findall_unit by blast
  then have "strip_chr 34 m0 = [a, b]"
    by (simp add: strip_quoted)
  with h' have "h' ''xyz_units'' = Some (Str (normalize_unit [a, b]))"
    "h' ''t_units'' = Some (Str (u ''unknown''))"
    by simp_all
  with m ab show "\<exists>a b ms. findall unit_regex (rstrip line) = [34, a, b, 34] # ms \<and>
         in_range CHR ''a'' CHR ''z'' a \<and> in_range CHR ''a'' CHR ''z'' b \<and>
         h' ''xyz_units'' = Some (Str (normalize_unit [a, b])) \<and>
         h' ''t_units'' = Some (Str (u ''unknown''))"
    by blast
qed

theorem unit_normalization_witness:
  "(\<exists>h'. process_line exact initial_header abscissa_cm = Inr h' \<and>
      0 < str_find abscissa_cm (u ''abscissa'') \<and>
      h' ''xyz_units'' = Some (Str (u ''mm'')) \<and> h' ''t_units'' = Some (Str (u ''unknown''))) \<and>
   (\<exists>h'. process_line exact initial_header abscissa_mm = Inr h' \<and>
      0 < str_find abscissa_mm (u ''abscissa'') \<and>
      h' ''xyz_units'' = Some (Str (u ''mm'')) \<and> h' ''t_units'' = Some (Str (u ''unknown''))) \<and>
   normalize_unit (u ''ms'') = u ''ms''"
proof (intro conjI)
  from abscissa_cm_read obtain h' where p: "process_line exact initial_header abscissa_cm = Inr h'"
    by (cases "process_line exact initial_header abscissa_cm") auto
  have t: "0 < str_find abscissa_cm (u ''abscissa'')"
    by (simp add: abscissa_cm_def eval_defs)
  have f: "findall unit_regex (rstrip abscissa_cm) = [u [CHR 0x22, CHR ''c'', CHR ''m'', CHR 0x22],
      u [CHR 0x22, CHR ''c'', CHR ''m'', CHR 0x22]]"
    by (simp add: abscissa_cm_def eval_defs)
  note un = unit_normalization [of "u ''cm''" abscissa_cm exact initial_header h']
  from un t p f
  have "h' ''xyz_units'' = Some (Str (normalize_unit (u ''cm'')))"
    "h' ''t_units'' = Some (Str (u ''unknown''))"
    by (auto simp: u_def)
  moreover from un have "normalize_unit (u ''cm'') = u ''mm''"
    by blast
  ultimately show "\<exists>h'. process_line exact initial_header abscissa_cm = Inr h' \<and>
      0 < str_find abscissa_cm (u ''abscissa'') \<and>
      h' ''xyz_units'' = Some (Str (u ''mm'')) \<and> h' ''t_units'' = Some (Str (u ''unknown''))"
    using t p by auto
next
  from abscissa_mm_read obtain h' where p: "process_line exact initial_header abscissa_mm = Inr h'"
    by (cases "process_line exact initial_header abscissa_mm") auto
  have t: "0 < str_find abscissa_mm (u ''abscissa'')"
    by (simp add: abscissa_mm_def eval_defs)
  have f: "findall unit_regex (rstrip abscissa_mm) = [u [CHR 0x22, CHR ''m'', CHR ''m'', CHR 0x22],
      u [CHR 0x22, CHR ''m'', CHR ''m'', CHR 0x22]]"
    by (simp add: abscissa_mm_def eval_defs)
  note un = unit_normalization [of "u ''mm''" abscissa_mm exact initial_header h']
  from un t p f
  have "h' ''xyz_units'' = Some (Str (normalize_unit (u ''mm'')))"
    "h' ''t_units'' = Some (Str (u ''unknown''))"
    by (auto simp: u_def)
  moreover have "u ''mm'' \<noteq> u ''cm''"
    by (simp add: u_def)
  with un have "normalize_unit (u ''mm'') = u ''mm''"
    by blast
  ultimately show "\<exists>h'. process_line exact initial_header abscissa_mm = Inr h' \<and>
      0 < str_find abscissa_mm (u ''abscissa'') \<and>
      h' ''xyz_units'' = Some (Str (u ''mm'')) \<and> h' ''t_units'' = Some (Str (u ''unknown''))"
    using t p by auto
next
  have "u ''ms'' \<noteq> u ''cm''"
    by (simp add: u_def)
  with unit_normalization [of "u ''ms''"] show "normalize_unit (u ''ms'') = u ''ms''"
    by blast
qed

text \<open>
  \<^bold>\<open>C9.\<close>  The specification says that the assembler mutates no slice: no header has its
  \<^verbatim>\<open>shape\<close> or \<^verbatim>\<open>voxel_dim\<close> changed.  It does not hold for the first slice:
  \<^verbatim>\<open>final_header\<close> is the dictionary \<^verbatim>\<open>all_headers[0]\<close> itself, not a copy.  For
  two slices of shape 2 by 2, the first slice's header holds the shape (2, 2, 2) and three
  voxel sizes after the assembly.
\<close>

theorem first_slice_header_is_mutated:
  "slice_field ''shape'' (mapE (read_file exact) [slice_a, slice_b]) =
     Inr [Some (Ints [2, 2]), Some (Ints [2, 2])] \<and>
   stored ''shape'' (read_directory exact [slice_a, slice_b]) =
     Inr (Some [Some (Ints [2, 2, 2]), Some (Ints [2, 2])]) \<and>
   slice_field ''voxel_dim'' (mapE (read_file exact) [slice_a, slice_b]) =
     Inr [Some (Nums [Flt 5, Flt 5]), Some (Nums [Flt 5, Flt 5])] \<and>
   stored ''voxel_dim'' (read_directory exact [slice_a, slice_b]) =
     Inr (Some [Some (Nums [Flt 5, Flt 5, Flt 5]), Some (Nums [Flt 5, Flt 5])])"
  using two_slices_read two_slices_assembled by simp

text \<open>
  \<^bold>\<open>C9, amended.\<close>  The consolidated header is the first slice's header; the assembly
  changes no key of it but \<^verbatim>\<open>shape\<close> and \<^verbatim>\<open>voxel_dim\<close>, and it changes no header of
  another slice.  (The arrays of the slices are values of the model: numpy copies them
  into the stacked array and writes into none.)
\<close>

theorem only_first_slice_header_is_overwritten:
  assumes "read_directory ops files = Inr (Some v)"
    and "mapE (read_file ops) files = Inr slices"
  shows "final_header v = 0 \<and> length (headers v) = length slices \<and>
         (\<forall>i. 0 < i \<longrightarrow> i < length slices \<longrightarrow> headers v ! i = fst (slices ! i)) \<and>
         (\<forall>k. k \<noteq> ''shape'' \<longrightarrow> k \<noteq> ''voxel_dim'' \<longrightarrow>
            (headers v ! 0) k = fst (slices ! 0) k)"
proof -
  from read_directory_Some [OF assms(1)] assms(2) obtain stacked where
    ne: "slices \<noteq> []"
    and asm: "(if length (shp stacked) < 4 then assemble3 ops stacked (map fst slices) 0
               else assemble4 ops stacked (map fst slices) 0) = Inr (vol_data v, headers v)"
    and fh: "final_header v = 0"
    by auto
  from asm have fr: "frame 0 {''shape'', ''voxel_dim''} (map fst slices) (headers v)"
    by (auto simp: assemble3_frame assemble4_frame split: if_splits)
  then have "length (headers v) = length slices"
    by (simp add: frame_def)
  moreover from fr have "\<forall>i. 0 < i \<longrightarrow> i < length slices \<longrightarrow> headers v ! i = fst (slices ! i)"
    by (simp add: frame_def)
  moreover from fr ne have "\<forall>k. k \<noteq> ''shape'' \<longrightarrow> k \<noteq> ''voxel_dim'' \<longrightarrow>
      (headers v ! 0) k = fst (slices ! 0) k"
    by (simp add: frame_def)
  ultimately show ?thesis
    using fh by blast
qed

theorem only_first_slice_header_is_overwritten_witness:
  "\<exists>v slices. read_directory exact [slice_a, slice_b] = Inr (Some v) \<and>
     mapE (read_file exact) [slice_a, slice_b] = Inr slices \<and> length slices = 2 \<and>
     final_header v = 0 \<and> headers v ! 1 = fst (slices ! 1) \<and>
     (headers v ! 0) ''real_voxel_dim'' = fst (slices ! 0) ''real_voxel_dim'' \<and>
     (headers v ! 0) ''shape'' = Some (Ints [2, 2, 2]) \<and>
     fst (slices ! 0) ''shape'' = Some (Ints [2, 2])"
proof -
  from two_slices_assembled obtain v where
    v: "read_directory exact [slice_a, slice_b] = Inr (Some v)"
    and after: "map (\<lambda>h. h ''shape'') (headers v) = [Some (Ints [2, 2, 2]), Some (Ints [2, 2])]"
    by (cases "read_directory exact [slice_a, slice_b]") (auto simp: stored_def)
  from two_slices_read obtain slices where
    s: "mapE (read_file exact) [slice_a, slice_b] = Inr slices"
    and before: "map (\<lambda>(h, a). h ''shape'') slices = [Some (Ints [2, 2]), Some (Ints [2, 2])]"
    by (cases "mapE (read_file exact) [slice_a, slice_b]") (auto simp: slice_field_def)
  from before have len: "length slices = 2"
    using length_map [of "\<lambda>(h, a). h ''shape''" slices] by simp
  from before have b0: "fst (slices ! 0) ''shape'' = Some (Ints [2, 2])"
    using nth_map [of 0 slices "\<lambda>(h, a). h ''shape''"] len
    by (simp add: case_prod_unfold)
  note w = only_first_slice_header_is_overwritten [OF v s]
  from w len have "length (headers v) = 2" by simp
  with after have a0: "(headers v ! 0) ''shape'' = Some (Ints [2, 2, 2])"
    using nth_map [of 0 "headers v" "\<lambda>h. h ''shape''"] by simp
  from w len have "final_header v = 0" "headers v ! 1 = fst (slices ! 1)"
    "(headers v ! 0) ''real_voxel_dim'' = fst (slices ! 0) ''real_voxel_dim''"
    by simp_all
  with v s len a0 b0 show ?thesis by blast
qed

text \<open>
  \<^bold>\<open>C10.\<close>  After a successful single-file read, \<^verbatim>\<open>voxel_dim\<close> has as many entries
  as the shorter of \<^verbatim>\<open>shape\<close> and \<^verbatim>\<open>real_voxel_dim\<close>: \<^verbatim>\<open>zip\<close> drops the surplus
  entries of the longer one, without an error and without padding.
\<close>

theorem voxel_dim_length_is_min:
  assumes "read_file ops file = Inr (h, a)"
  shows "\<exists>shape rvd vd.
           h ''shape'' = Some (Ints shape) \<and> h ''real_voxel_dim'' = Some (Floats rvd) \<and>
           h ''voxel_dim'' = Some (Nums vd) \<and> length vd = min (length shape) (length rvd)"
proof -
  from assms obtain shape rvd where
    "h ''shape'' = Some (Ints shape)" "h ''real_voxel_dim'' = Some (Floats rvd)"
    "h ''voxel_dim'' = Some (Nums (voxel_dims ops shape rvd))"
    by (rule read_file_header)
  moreover have "length (voxel_dims ops shape rvd) = min (length shape) (length rvd)"
    by (simp add: voxel_dims_def)
  ultimately show ?thesis by blast
qed

theorem voxel_dim_length_is_min_witness:
  "\<exists>h a vd. read_file exact spec_example = Inr (h, a) \<and>
     h ''shape'' = Some (Ints [4, 4]) \<and> h ''real_voxel_dim'' = Some (Floats [10, 10, 1]) \<and>
     h ''voxel_dim'' = Some (Nums vd) \<and> length vd = 2"
proof -
  from spec_example_read obtain h a where
    r: "read_file exact spec_example = Inr (h, a)"
    and f: "h ''shape'' = Some (Ints [4, 4])" "h ''real_voxel_dim'' = Some (Floats [10, 10, 1])"
    by (rule header_fields_Inr) simp
  from voxel_dim_length_is_min [OF r] f obtain vd where
    "h ''voxel_dim'' = Some (Nums vd)" "length vd = 2"
    by auto
  with r f show ?thesis by blast
qed

end
